theory Spec2Isabelle
  imports Complex_Main "HOL-Library.Multiset" "HOL-Library.Log_Nat"
begin

section \<open>SCAR: emission calculator, scenario engine and indicators\<close>

text \<open>
  The Python sources compute with floats. The calculator, the scenario engine and the
  indicators are first modelled on real numbers, in exact arithmetic: where a statement
  is about these definitions, the binary rounding of a product or of a sum is not in it.
  The calculator and the scenario engine are then given a second time on binary64
  doubles, every operation rounded, for the statements that rounding decides. The values \<open>inf\<close> and \<open>nan\<close> are in
  neither model.
\<close>

subsection \<open>Python dictionaries\<close>

text \<open>
  A dictionary keeps its keys in insertion order: an association list. Assigning to a
  key that is present replaces the value in place, assigning to a new key appends it.
\<close>

type_synonym 'v dict = "(string \<times> 'v) list"

type_synonym emissions = "real dict"

fun dict_set :: "string \<Rightarrow> 'v \<Rightarrow> 'v dict \<Rightarrow> 'v dict" where
  "dict_set k v [] = [(k, v)]"
| "dict_set k v ((k', v') # d) =
     (if k' = k then (k, v) # d else (k', v') # dict_set k v d)"

definition dict_get :: "'v dict \<Rightarrow> string \<Rightarrow> 'v \<Rightarrow> 'v" where
  "dict_get d k dflt = (case map_of d k of None \<Rightarrow> dflt | Some v \<Rightarrow> v)"

definition dict_values :: "'v dict \<Rightarrow> 'v list" where
  "dict_values d = map snd d"

subsection \<open>Scenario rules (calculations/scenarios/rules.py)\<close>

definition DIGITAL_SOBRIETY_POSTS :: "string list" where
  "DIGITAL_SOBRIETY_POSTS = [''cloud'', ''video_conf'', ''email'', ''llm_usage'']"

definition MAX_FLIGHT_SUBSTITUTION :: "(string \<times> real) list" where
  "MAX_FLIGHT_SUBSTITUTION =
     [(''flight_short'', 0.6), (''flight_medium'', 0.4), (''flight_long'', 0.15)]"

definition CAR_SUBSTITUTION_RATE :: real where
  "CAR_SUBSTITUTION_RATE = 0.3"

definition MAX_DIGITAL_REDUCTION :: real where
  "MAX_DIGITAL_REDUCTION = 0.3"

text \<open>The set literal \<open>{"car_diesel", "car_essence"}\<close> of the two car loops.\<close>

definition car_keys :: "string list" where
  "car_keys = [''car_diesel'', ''car_essence'']"

subsection \<open>Scenario engine (calculations/scenarios/engine.py)\<close>

text \<open>\<open>copy_emissions\<close>: a new dictionary with every value passed through \<open>float\<close>.\<close>

definition copy_emissions :: "emissions \<Rightarrow> emissions" where
  "copy_emissions emissions = map (\<lambda>(k, v). (k, v)) emissions"

text \<open>Body of the flight loop of the modal substitution scenario.\<close>

definition modal_flight :: "string \<times> real \<Rightarrow> emissions \<Rightarrow> emissions" where
  "modal_flight fr emissions =
     (case fr of (flight, max_rate) \<Rightarrow>
        (case map_of emissions flight of
           None \<Rightarrow> emissions
         | Some v \<Rightarrow>
             if v > 0 then
               (let reduced = v * max_rate;
                    e1 = dict_set flight (v - reduced) emissions
                in dict_set ''train_tgv'' (dict_get e1 ''train_tgv'' 0 + reduced * 0.1) e1)
             else emissions))"

text \<open>Body of the car loop of the modal substitution scenario.\<close>

definition modal_car :: "string \<Rightarrow> emissions \<Rightarrow> emissions" where
  "modal_car car emissions =
     (case map_of emissions car of
        None \<Rightarrow> emissions
      | Some v \<Rightarrow>
          if v > 0 then
            (let reduced = v * CAR_SUBSTITUTION_RATE;
                 e1 = dict_set car (v - reduced) emissions
             in dict_set ''carpool'' (dict_get e1 ''carpool'' 0 + reduced) e1)
          else emissions)"

definition scenario_modal_substitution :: "emissions \<Rightarrow> emissions" where
  "scenario_modal_substitution baseline =
     (let emissions = copy_emissions baseline;
          emissions = fold modal_flight MAX_FLIGHT_SUBSTITUTION emissions
      in fold modal_car car_keys emissions)"

text \<open>Body of the loop over the digital sobriety posts, for a reduction rate.\<close>

definition digital_post :: "real \<Rightarrow> string \<Rightarrow> emissions \<Rightarrow> emissions" where
  "digital_post reduction post emissions =
     (case map_of emissions post of
        None \<Rightarrow> emissions
      | Some v \<Rightarrow>
          if v > 0 then dict_set post (v * (1 - reduction)) emissions else emissions)"

definition scenario_digital_sobriety :: "emissions \<Rightarrow> emissions" where
  "scenario_digital_sobriety baseline =
     (let emissions = copy_emissions baseline
      in fold (digital_post MAX_DIGITAL_REDUCTION) DIGITAL_SOBRIETY_POSTS emissions)"

text \<open>
  The reduction parameters of the utility-aware scenario:
  \<open>(digital_reduction, mobility_factor)\<close>, by the \<open>if\<close>/\<open>elif\<close>/\<open>else\<close> on the score.
\<close>

definition utility_parameters :: "int \<Rightarrow> real \<times> real" where
  "utility_parameters utility =
     (if utility \<ge> 8 then (0.1, 0.5)
      else if utility \<ge> 5 then (0.25, 1.0)
      else (0.4, 1.3))"

definition utility_flight :: "real \<Rightarrow> string \<times> real \<Rightarrow> emissions \<Rightarrow> emissions" where
  "utility_flight mobility_factor fr emissions =
     (case fr of (flight, max_rate) \<Rightarrow>
        (case map_of emissions flight of
           None \<Rightarrow> emissions
         | Some v \<Rightarrow>
             if v > 0 then
               (let reduced = v * min (max_rate * mobility_factor) max_rate;
                    e1 = dict_set flight (v - reduced) emissions
                in dict_set ''train_tgv'' (dict_get e1 ''train_tgv'' 0 + reduced * 0.1) e1)
             else emissions))"

definition utility_car :: "real \<Rightarrow> string \<Rightarrow> emissions \<Rightarrow> emissions" where
  "utility_car mobility_factor car emissions =
     (case map_of emissions car of
        None \<Rightarrow> emissions
      | Some v \<Rightarrow>
          if v > 0 then
            (let reduced = v * CAR_SUBSTITUTION_RATE * mobility_factor;
                 e1 = dict_set car (v - reduced) emissions
             in dict_set ''carpool'' (dict_get e1 ''carpool'' 0 + reduced) e1)
          else emissions)"

definition scenario_utility_aware :: "emissions \<Rightarrow> int \<Rightarrow> emissions" where
  "scenario_utility_aware baseline utility =
     (let emissions = copy_emissions baseline;
          (digital_reduction, mobility_factor) = utility_parameters utility;
          emissions = fold (digital_post digital_reduction) DIGITAL_SOBRIETY_POSTS emissions;
          emissions = fold (utility_flight mobility_factor) MAX_FLIGHT_SUBSTITUTION emissions
      in fold (utility_car mobility_factor) car_keys emissions)"

subsection \<open>Python builtins used by the calculator and the results route\<close>

datatype py_error = ValueError | ZeroDivisionError

definition and_then :: "py_error + 'a \<Rightarrow> ('a \<Rightarrow> py_error + 'b) \<Rightarrow> py_error + 'b" where
  "and_then m f = (case m of Inl e \<Rightarrow> Inl e | Inr x \<Rightarrow> f x)"

definition py_div :: "real \<Rightarrow> real \<Rightarrow> py_error + real" where
  "py_div a b = (if b = 0 then Inl ZeroDivisionError else Inr (a / b))"

text \<open>
  \<open>round(x, ndigits)\<close>: the nearest multiple of \<open>10 ^ (- ndigits)\<close>, a tie going to the
  even one. Python rounds the exact value of the double \<open>x\<close> so; in the exact model the
  argument is the exact decimal product, where the code has the double nearest to it, and
  the two part on a decimal tie (\<open>5 * 0.001\<close> is 0 here and 0.01 on doubles).
\<close>

definition round_half_even :: "real \<Rightarrow> int" where
  "round_half_even x =
     (let f = \<lfloor>x\<rfloor>; d = x - of_int f
      in if d < 1 / 2 then f else if d > 1 / 2 then f + 1 else if even f then f else f + 1)"

definition py_round :: "real \<Rightarrow> nat \<Rightarrow> real" where
  "py_round x ndigits = of_int (round_half_even (x * 10 ^ ndigits)) / 10 ^ ndigits"

text \<open>
  \<open>float(s)\<close> and \<open>int(s)\<close> on an ASCII string: the whitespace around it is stripped
  (space and the characters 9 to 13), a sign may lead, groups of digits may be joined by
  single underscores. \<open>float\<close> also accepts \<open>inf\<close>, \<open>infinity\<close> and \<open>nan\<close>, in any case.
  \<open>None\<close> of \<open>py_float\<close> and \<open>Inl ValueError\<close> of \<open>py_int\<close> stand for the \<open>ValueError\<close>
  raised. A finite literal is given its exact decimal value.
\<close>

datatype float_literal = Finite real | PlusInfinity | MinusInfinity | NotANumber

definition is_space :: "char \<Rightarrow> bool" where
  "is_space c = (c \<in> set [CHR '' '', CHR 0x09, CHR 0x0A, CHR 0x0B, CHR 0x0C, CHR 0x0D])"

definition to_lower :: "char \<Rightarrow> char" where
  "to_lower c =
     (case map_of (zip ''ABCDEFGHIJKLMNOPQRSTUVWXYZ'' ''abcdefghijklmnopqrstuvwxyz'') c of
        None \<Rightarrow> c
      | Some l \<Rightarrow> l)"

definition strip :: "string \<Rightarrow> string" where
  "strip s = rev (dropWhile is_space (rev (dropWhile is_space s)))"

definition digit_of :: "char \<Rightarrow> nat option" where
  "digit_of c = map_of (zip ''0123456789'' [0, 1, 2, 3, 4, 5, 6, 7, 8, 9]) c"

text \<open>
  \<open>digitpart acc n s\<close> reads the longest \<open>digit (["_"] digit)*\<close> at the head of \<open>s\<close>:
  the value read (continuing \<open>acc\<close>), the number of digits (continuing \<open>n\<close>), the rest.
\<close>

fun digitpart :: "nat \<Rightarrow> nat \<Rightarrow> string \<Rightarrow> nat \<times> nat \<times> string" where
  "digitpart acc n [] = (acc, n, [])"
| "digitpart acc n [c] =
     (case digit_of c of Some d \<Rightarrow> (acc * 10 + d, n + 1, []) | None \<Rightarrow> (acc, n, [c]))"
| "digitpart acc n (c # c' # cs) =
     (case digit_of c of
        Some d \<Rightarrow> digitpart (acc * 10 + d) (n + 1) (c' # cs)
      | None \<Rightarrow>
          (case digit_of c' of
             Some d' \<Rightarrow>
               if c = CHR ''_'' \<and> n > 0 then digitpart (acc * 10 + d') (n + 1) cs
               else (acc, n, c # c' # cs)
           | None \<Rightarrow> (acc, n, c # c' # cs)))"

definition sign_of :: "string \<Rightarrow> bool \<times> string" where
  "sign_of s =
     (case s of
        [] \<Rightarrow> (False, [])
      | c # cs \<Rightarrow>
          if c = CHR ''-'' then (True, cs) else if c = CHR ''+'' then (False, cs) else (False, s))"

definition py_int :: "string \<Rightarrow> py_error + int" where
  "py_int s =
     (case sign_of (strip s) of (neg, s1) \<Rightarrow>
        (case digitpart 0 0 s1 of (v, n, rest) \<Rightarrow>
           if n > 0 \<and> rest = [] then Inr (if neg then - int v else int v)
           else Inl ValueError))"

definition exponent_of :: "string \<Rightarrow> int option" where
  "exponent_of s =
     (case s of
        [] \<Rightarrow> Some 0
      | c # cs \<Rightarrow>
          if c = CHR ''e'' \<or> c = CHR ''E'' then
            (case sign_of cs of (neg, s1) \<Rightarrow>
               (case digitpart 0 0 s1 of (v, n, rest) \<Rightarrow>
                  if n > 0 \<and> rest = [] then Some (if neg then - int v else int v)
                  else None))
          else None)"

definition py_float :: "string \<Rightarrow> float_literal option" where
  "py_float s =
     (case sign_of (strip s) of (neg, s1) \<Rightarrow>
        if map to_lower s1 = ''inf'' \<or> map to_lower s1 = ''infinity'' then
          Some (if neg then MinusInfinity else PlusInfinity)
        else if map to_lower s1 = ''nan'' then Some NotANumber
        else
        (case digitpart 0 0 s1 of (ip, ni, s2) \<Rightarrow>
           (case (case s2 of
                    [] \<Rightarrow> (0, 0, s2)
                  | c # cs \<Rightarrow> if c = CHR ''.'' then digitpart 0 0 cs else (0, 0, s2))
            of (fp, nf, s3) \<Rightarrow>
              if ni + nf = 0 then None
              else
                (case exponent_of s3 of
                   None \<Rightarrow> None
                 | Some ex \<Rightarrow>
                     (let m = real ip + real fp / 10 ^ nf;
                          x = (if ex \<ge> 0 then m * 10 ^ nat ex else m / 10 ^ nat (- ex))
                      in Some (Finite (if neg then - x else x)))))))"

subsection \<open>Emission factors (emission_factors.py)\<close>

definition FACTORS :: "(string \<times> real) list" where
  "FACTORS =
     [(''flight_short'', 0.255), (''flight_medium'', 0.145), (''flight_long'', 0.133),
      (''train_tgv'', 0.003), (''train_ter'', 0.007), (''car_diesel'', 0.25),
      (''car_essence'', 0.23), (''carpool'', 0.083), (''bus'', 0.10), (''metro'', 0.005),
      (''electricity'', 0.079), (''gas'', 0.227), (''fioul'', 0.300),
      (''heating_network'', 0.180),
      (''laptops'', 300), (''desktop'', 450), (''screen'', 100), (''server'', 1600),
      (''cloud'', 120), (''video_conf'', 0.055), (''email'', 0.035), (''llm_usage'', 0.001),
      (''ai_training'', 3.0),
      (''meat_meals'', 5.0), (''white_meat_meals'', 2.0), (''veg_meals'', 1.0),
      (''coffee'', 0.07),
      (''hotel_night'', 6.5), (''airbnb_night'', 3.5), (''conference_day'', 15.0),
      (''conference_meal'', 4.0)]"

subsection \<open>Emission calculator (calculations/emissions.py)\<close>

text \<open>
  The quantity declared for a key: \<open>form_data.get(key, 0)\<close> through \<open>float\<close>, zero when the
  conversion fails, and zero when it is negative, \<open>-inf\<close> included. For \<open>nan\<close> the code
  keeps \<open>nan\<close>, whose product with the factor is not greater than 0, so the key is left
  out as for the quantity 0. For \<open>inf\<close> the code stores the amount \<open>inf\<close>, which no real
  number stands for: the model leaves that key out, and says nothing of such inputs.
\<close>

definition activity_value :: "string dict \<Rightarrow> string \<Rightarrow> real" where
  "activity_value form_data key =
     (case map_of form_data key of
        None \<Rightarrow> 0
      | Some raw_value \<Rightarrow>
          (case py_float raw_value of
             None \<Rightarrow> 0
           | Some (Finite x) \<Rightarrow> if x < 0 then 0 else x
           | Some PlusInfinity \<Rightarrow> 0
           | Some MinusInfinity \<Rightarrow> 0
           | Some NotANumber \<Rightarrow> 0))"

text \<open>
  Body of the loop over \<open>FACTORS\<close>; the state is \<open>(emissions, total)\<close>, the total
  written \<open>total_acc\<close>.
\<close>

definition emission_step ::
  "string dict \<Rightarrow> string \<times> real \<Rightarrow> emissions \<times> real \<Rightarrow> emissions \<times> real" where
  "emission_step form_data kf acc =
     (case kf of (key, factor) \<Rightarrow>
        (case acc of (emissions, total_acc) \<Rightarrow>
           (let emission_value = activity_value form_data key * factor
            in if emission_value > 0 then
                 (let emission_value = py_round emission_value 2
                  in (dict_set key emission_value emissions, total_acc + emission_value))
               else (emissions, total_acc))))"

definition calculate_emissions :: "string dict \<Rightarrow> emissions \<times> real" where
  "calculate_emissions form_data = fold (emission_step form_data) FACTORS ([], 0)"

subsection \<open>Results route (app.py)\<close>

text \<open>
  \<open>max(items, key=...)\<close> on a non-empty sequence: the running best is replaced only by a
  strictly greater value, so the first maximal item is returned.
\<close>

fun max_item :: "string \<times> real \<Rightarrow> emissions \<Rightarrow> string \<times> real" where
  "max_item best [] = best"
| "max_item best (x # xs) = (if snd x > snd best then max_item x xs else max_item best xs)"

definition mobility_posts :: "string list" where
  "mobility_posts =
     [''flight_short'', ''flight_medium'', ''flight_long'', ''car_diesel'', ''car_essence'',
      ''train_tgv'', ''train_ter'']"

definition digital_posts :: "string list" where
  "digital_posts =
     [''server'', ''cloud'', ''desktop'', ''laptops'', ''screen'', ''llm_usage'', ''ai_training'']"

text \<open>\<open>sum(v for k, v in emissions.items() if k in posts)\<close>\<close>

definition sum_over :: "string list \<Rightarrow> emissions \<Rightarrow> real" where
  "sum_over posts emissions = sum_list (map snd (filter (\<lambda>(k, v). k \<in> set posts) emissions))"

text \<open>The \<open>if\<close>/\<open>elif\<close> chain that classifies the profile; every division may raise.\<close>

definition classify_profile :: "real \<Rightarrow> real \<Rightarrow> real \<Rightarrow> py_error + string" where
  "classify_profile baseline_total digital_sum mobility_sum =
     (if baseline_total < 100 then Inr ''low''
      else and_then (py_div digital_sum baseline_total) (\<lambda>d1.
        if d1 > 0.6 then Inr ''digital''
        else and_then (py_div mobility_sum baseline_total) (\<lambda>m1.
          if m1 > 0.6 then Inr ''mobility''
          else and_then (py_div digital_sum baseline_total) (\<lambda>d2.
            if \<not> d2 > 0.3 then Inr ''other''
            else and_then (py_div mobility_sum baseline_total) (\<lambda>m2.
              if m2 > 0.3 then Inr ''mixed'' else Inr ''other'')))))"

text \<open>The local helper \<open>total(e)\<close> of the route.\<close>

definition total_of :: "emissions \<Rightarrow> real" where
  "total_of e = py_round (sum_list (dict_values e)) 2"

text \<open>One value of the \<open>reductions\<close> comprehension.\<close>

definition reduction :: "real \<Rightarrow> real \<Rightarrow> py_error + real" where
  "reduction baseline_total v =
     (if baseline_total > 0 then
        and_then (py_div (baseline_total - v) baseline_total) (\<lambda>q. Inr (py_round (q * 100) 2))
      else Inr 0)"

fun reductions_of :: "real \<Rightarrow> real dict \<Rightarrow> py_error + real dict" where
  "reductions_of baseline_total [] = Inr []"
| "reductions_of baseline_total ((k, v) # totals) =
     (if k \<noteq> ''baseline'' then
        and_then (reduction baseline_total v) (\<lambda>r.
          and_then (reductions_of baseline_total totals) (\<lambda>rs. Inr ((k, r) # rs)))
      else reductions_of baseline_total totals)"

text \<open>The keyword arguments handed to the results template.\<close>

record render_args =
  arg_results :: emissions
  arg_totals :: "real dict"
  arg_reductions :: "real dict"
  arg_utility :: int
  arg_dominant_post :: string
  arg_dominant_share :: real
  arg_baseline_profile :: string

text \<open>\<open>dominant_post.replace("_", " ")\<close>\<close>

definition replace_underscores :: "string \<Rightarrow> string" where
  "replace_underscores s = map (\<lambda>c. if c = CHR ''_'' then CHR '' '' else c) s"

text \<open>
  The route from the dominant source on (lines 50 to 119), as a function of the baseline
  mapping, the rounded baseline total and the utility score.
\<close>

definition indicators :: "emissions \<Rightarrow> real \<Rightarrow> int \<Rightarrow> py_error + render_args" where
  "indicators baseline_emissions baseline_total utility =
     and_then
       (case baseline_emissions of
          [] \<Rightarrow> Inr ('''', 0)
        | x # xs \<Rightarrow>
            if baseline_total > 0 then
              (case max_item x xs of (dominant_post, dominant_value) \<Rightarrow>
                 and_then (py_div dominant_value baseline_total) (\<lambda>q.
                   Inr (dominant_post, py_round (q * 100) 1)))
            else Inr ('''', 0))
       (\<lambda>(dominant_post, dominant_share).
          let mobility_sum = sum_over mobility_posts baseline_emissions;
              digital_sum = sum_over digital_posts baseline_emissions
          in and_then (classify_profile baseline_total digital_sum mobility_sum)
               (\<lambda>baseline_profile.
                  let scenario_modal = scenario_modal_substitution baseline_emissions;
                      scenario_digital = scenario_digital_sobriety baseline_emissions;
                      scenario_utility = scenario_utility_aware baseline_emissions utility;
                      totals = [(''baseline'', baseline_total),
                                (''modal'', total_of scenario_modal),
                                (''digital'', total_of scenario_digital),
                                (''utility'', total_of scenario_utility)]
                  in and_then (reductions_of baseline_total totals) (\<lambda>reductions.
                       Inr \<lparr> arg_results = baseline_emissions,
                             arg_totals = totals,
                             arg_reductions = reductions,
                             arg_utility = utility,
                             arg_dominant_post = replace_underscores dominant_post,
                             arg_dominant_share = dominant_share,
                             arg_baseline_profile = baseline_profile \<rparr>)))"

text \<open>\<open>int(form_data.get("mission_utility", 0))\<close>\<close>

definition mission_utility :: "string dict \<Rightarrow> py_error + int" where
  "mission_utility form_data =
     (case map_of form_data ''mission_utility'' of None \<Rightarrow> Inr 0 | Some s \<Rightarrow> py_int s)"

definition results :: "string dict \<Rightarrow> py_error + render_args" where
  "results form_data =
     (case calculate_emissions form_data of (baseline_emissions, baseline_total) \<Rightarrow>
        (let baseline_total = py_round baseline_total 2
         in and_then (mission_utility form_data) (\<lambda>utility.
              indicators baseline_emissions baseline_total utility)))"

subsection \<open>The scenario engine on binary64 doubles\<close>

text \<open>
  The definitions of the engine above compute in exact arithmetic. Python computes in
  IEEE 754 binary64: every product, difference and sum is rounded to the nearest double,
  a tie going to the even significand. \<open>fl\<close> is that rounding, with 53 significant bits
  and an unbounded exponent: it is the rounding of the machine wherever a result is
  neither below \<open>2 ^ (-1022)\<close> nor above the largest double in magnitude. The same loops
  are given below with every operation rounded, and every decimal literal of the source
  read as the double it denotes.
\<close>

definition binade :: "real \<Rightarrow> int" where
  "binade x =
     (if 1 \<le> \<bar>x\<bar> then bitlen \<lfloor>\<bar>x\<bar>\<rfloor> - 1 else - bitlen (\<lceil>1 / \<bar>x\<bar>\<rceil> - 1))"

definition fl :: "real \<Rightarrow> real" where
  "fl x =
     (if x = 0 then 0
      else (let s = 2 powi (binade x - 52) in of_int (round_half_even (x / s)) * s))"

definition fadd :: "real \<Rightarrow> real \<Rightarrow> real" where
  "fadd a b = fl (a + b)"

definition fsub :: "real \<Rightarrow> real \<Rightarrow> real" where
  "fsub a b = fl (a - b)"

definition fmul :: "real \<Rightarrow> real \<Rightarrow> real" where
  "fmul a b = fl (a * b)"

definition unit_roundoff :: real where
  "unit_roundoff = 1 / 2 ^ 53"

text \<open>\<open>sum(values)\<close> as Python 3.11 computes it: from 0, left to right, each sum rounded.\<close>

definition py_sum_f64 :: "real list \<Rightarrow> real" where
  "py_sum_f64 xs = fold (\<lambda>x acc. fadd acc x) xs 0"

definition copy_emissions_f64 :: "emissions \<Rightarrow> emissions" where
  "copy_emissions_f64 emissions = map (\<lambda>(k, v). (k, fl v)) emissions"

definition modal_flight_f64 :: "string \<times> real \<Rightarrow> emissions \<Rightarrow> emissions" where
  "modal_flight_f64 fr emissions =
     (case fr of (flight, max_rate) \<Rightarrow>
        (case map_of emissions flight of
           None \<Rightarrow> emissions
         | Some v \<Rightarrow>
             if v > 0 then
               (let reduced = fmul v (fl max_rate);
                    e1 = dict_set flight (fsub v reduced) emissions
                in dict_set ''train_tgv''
                     (fadd (dict_get e1 ''train_tgv'' 0) (fmul reduced (fl 0.1))) e1)
             else emissions))"

definition modal_car_f64 :: "string \<Rightarrow> emissions \<Rightarrow> emissions" where
  "modal_car_f64 car emissions =
     (case map_of emissions car of
        None \<Rightarrow> emissions
      | Some v \<Rightarrow>
          if v > 0 then
            (let reduced = fmul v (fl CAR_SUBSTITUTION_RATE);
                 e1 = dict_set car (fsub v reduced) emissions
             in dict_set ''carpool'' (fadd (dict_get e1 ''carpool'' 0) reduced) e1)
          else emissions)"

definition scenario_modal_substitution_f64 :: "emissions \<Rightarrow> emissions" where
  "scenario_modal_substitution_f64 baseline =
     (let emissions = copy_emissions_f64 baseline;
          emissions = fold modal_flight_f64 MAX_FLIGHT_SUBSTITUTION emissions
      in fold modal_car_f64 car_keys emissions)"

definition digital_post_f64 :: "real \<Rightarrow> string \<Rightarrow> emissions \<Rightarrow> emissions" where
  "digital_post_f64 rate post emissions =
     (case map_of emissions post of
        None \<Rightarrow> emissions
      | Some v \<Rightarrow>
          if v > 0 then dict_set post (fmul v (fsub 1 (fl rate))) emissions
          else emissions)"

definition scenario_digital_sobriety_f64 :: "emissions \<Rightarrow> emissions" where
  "scenario_digital_sobriety_f64 baseline =
     (let emissions = copy_emissions_f64 baseline
      in fold (digital_post_f64 MAX_DIGITAL_REDUCTION) DIGITAL_SOBRIETY_POSTS emissions)"

definition utility_flight_f64 :: "real \<Rightarrow> string \<times> real \<Rightarrow> emissions \<Rightarrow> emissions" where
  "utility_flight_f64 mobility_factor fr emissions =
     (case fr of (flight, max_rate) \<Rightarrow>
        (case map_of emissions flight of
           None \<Rightarrow> emissions
         | Some v \<Rightarrow>
             if v > 0 then
               (let reduced =
                      fmul v (min (fmul (fl max_rate) (fl mobility_factor)) (fl max_rate));
                    e1 = dict_set flight (fsub v reduced) emissions
                in dict_set ''train_tgv''
                     (fadd (dict_get e1 ''train_tgv'' 0) (fmul reduced (fl 0.1))) e1)
             else emissions))"

definition utility_car_f64 :: "real \<Rightarrow> string \<Rightarrow> emissions \<Rightarrow> emissions" where
  "utility_car_f64 mobility_factor car emissions =
     (case map_of emissions car of
        None \<Rightarrow> emissions
      | Some v \<Rightarrow>
          if v > 0 then
            (let reduced = fmul (fmul v (fl CAR_SUBSTITUTION_RATE)) (fl mobility_factor);
                 e1 = dict_set car (fsub v reduced) emissions
             in dict_set ''carpool'' (fadd (dict_get e1 ''carpool'' 0) reduced) e1)
          else emissions)"

definition scenario_utility_aware_f64 :: "emissions \<Rightarrow> int \<Rightarrow> emissions" where
  "scenario_utility_aware_f64 baseline utility =
     (let emissions = copy_emissions_f64 baseline;
          (digital_reduction, mobility_factor) = utility_parameters utility;
          emissions =
            fold (digital_post_f64 digital_reduction) DIGITAL_SOBRIETY_POSTS emissions;
          emissions =
            fold (utility_flight_f64 mobility_factor) MAX_FLIGHT_SUBSTITUTION emissions
      in fold (utility_car_f64 mobility_factor) car_keys emissions)"

text \<open>
  The calculator on doubles: \<open>float\<close> gives the double nearest to the decimal written,
  the product is rounded, and \<open>round(x, 2)\<close> gives the double nearest to the decimal
  rounding of the double \<open>x\<close>.
\<close>

definition activity_value_f64 :: "string dict \<Rightarrow> string \<Rightarrow> real" where
  "activity_value_f64 form_data key = fl (activity_value form_data key)"

definition py_round_f64 :: "real \<Rightarrow> nat \<Rightarrow> real" where
  "py_round_f64 x ndigits = fl (py_round x ndigits)"

definition emission_step_f64 ::
  "string dict \<Rightarrow> string \<times> real \<Rightarrow> emissions \<times> real \<Rightarrow> emissions \<times> real" where
  "emission_step_f64 form_data kf acc =
     (case kf of (key, factor) \<Rightarrow>
        (case acc of (emissions, total_acc) \<Rightarrow>
           (let emission_value = fmul (activity_value_f64 form_data key) (fl factor)
            in if emission_value > 0 then
                 (let emission_value = py_round_f64 emission_value 2
                  in (dict_set key emission_value emissions, fadd total_acc emission_value))
               else (emissions, total_acc))))"

definition calculate_emissions_f64 :: "string dict \<Rightarrow> emissions \<times> real" where
  "calculate_emissions_f64 form_data = fold (emission_step_f64 form_data) FACTORS ([], 0)"

subsection \<open>Notions used to state the properties\<close>

text \<open>
  The four mobility loops share one shape: a positive source key loses \<open>v * rate\<close>, and
  \<open>share\<close> of that amount is added to a destination key, created when absent.
\<close>

definition shift :: "string \<Rightarrow> real \<Rightarrow> real \<Rightarrow> string \<Rightarrow> emissions \<Rightarrow> emissions" where
  "shift src rate share dst e =
     (case map_of e src of
        None \<Rightarrow> e
      | Some v \<Rightarrow>
          if v > 0 then
            dict_set dst (dict_get (dict_set src (v - v * rate) e) dst 0 + v * rate * share)
              (dict_set src (v - v * rate) e)
          else e)"

text \<open>A key that is present with a positive value.\<close>

definition is_positive :: "emissions \<Rightarrow> string \<Rightarrow> bool" where
  "is_positive b k = (case map_of b k of None \<Rightarrow> False | Some v \<Rightarrow> v > 0)"

text \<open>The amount a loop takes from a key at a rate: nothing unless the key is positive.\<close>

definition removed :: "emissions \<Rightarrow> string \<Rightarrow> real \<Rightarrow> real" where
  "removed b k rate = (case map_of b k of None \<Rightarrow> 0 | Some v \<Rightarrow> if v > 0 then v * rate else 0)"

text \<open>
  The two mobility loops unrolled over their keys, for the three flight rates and the car
  rate; and the loop over the digital sobriety posts unrolled, for a reduction rate.
\<close>

definition mobility_shifts :: "real \<Rightarrow> real \<Rightarrow> real \<Rightarrow> real \<Rightarrow> emissions \<Rightarrow> emissions" where
  "mobility_shifts r1 r2 r3 rc e =
     shift ''car_essence'' rc 1 ''carpool''
       (shift ''car_diesel'' rc 1 ''carpool''
         (shift ''flight_long'' r3 0.1 ''train_tgv''
           (shift ''flight_medium'' r2 0.1 ''train_tgv''
             (shift ''flight_short'' r1 0.1 ''train_tgv'' e))))"

definition digital_cuts :: "real \<Rightarrow> emissions \<Rightarrow> emissions" where
  "digital_cuts r e =
     digital_post r ''llm_usage''
       (digital_post r ''email'' (digital_post r ''video_conf'' (digital_post r ''cloud'' e)))"

text \<open>
  The shape shared by the mobility loops on doubles: a positive source key \<open>v\<close> loses
  \<open>red v\<close>, and \<open>gain (red v)\<close> is added to the destination key.
\<close>

definition shift_f64 ::
  "string \<Rightarrow> (real \<Rightarrow> real) \<Rightarrow> (real \<Rightarrow> real) \<Rightarrow> string \<Rightarrow> emissions \<Rightarrow> emissions" where
  "shift_f64 src red gain dst e =
     (case map_of e src of
        None \<Rightarrow> e
      | Some v \<Rightarrow>
          if v > 0 then
            dict_set dst (fadd (dict_get (dict_set src (fsub v (red v)) e) dst 0) (gain (red v)))
              (dict_set src (fsub v (red v)) e)
          else e)"

section \<open>Properties\<close>

subsection \<open>Dictionary facts\<close>

lemma map_of_dict_set: "map_of (dict_set k v d) = (map_of d)(k \<mapsto> v)"
  by (induction d) (auto simp: fun_eq_iff)

lemma sum_dict_set:
  "sum_list (dict_values (dict_set k v d)) = sum_list (dict_values d) + v - dict_get d k (0::real)"
  by (induction d) (auto simp: dict_values_def dict_get_def)

lemma set_dict_set: "set (dict_set k v d) \<subseteq> insert (k, v) (set d)"
  by (induction d) (auto split: if_splits)

lemma values_dict_set: "set (dict_values (dict_set k v d)) \<subseteq> insert v (set (dict_values d))"
  using image_mono [OF set_dict_set, of snd k v d] by (simp add: dict_values_def)

lemma keys_dict_set:
  "map fst (dict_set k v d) = (if map_of d k = None then map fst d @ [k] else map fst d)"
  by (induction d) auto

lemma copy_emissions_id: "copy_emissions e = e"
  by (simp add: copy_emissions_def)

lemma map_of_value: "map_of d k = Some v \<Longrightarrow> v \<in> set (dict_values d)"
  by (auto simp: dict_values_def dest: map_of_SomeD intro: rev_image_eqI)

subsection \<open>The loop bodies as shifts\<close>

lemma modal_flight_shift: "modal_flight (f, r) e = shift f r 0.1 ''train_tgv'' e"
  by (simp add: modal_flight_def shift_def Let_def split: option.splits)

lemma modal_car_shift: "modal_car c e = shift c CAR_SUBSTITUTION_RATE 1 ''carpool'' e"
  by (simp add: modal_car_def shift_def Let_def split: option.splits)

lemma utility_flight_shift:
  "utility_flight mf (f, r) e = shift f (min (r * mf) r) 0.1 ''train_tgv'' e"
  by (simp add: utility_flight_def shift_def Let_def split: option.splits)

lemma utility_car_shift:
  "utility_car mf c e = shift c (CAR_SUBSTITUTION_RATE * mf) 1 ''carpool'' e"
  by (simp add: utility_car_def shift_def Let_def mult.assoc split: option.splits)

lemma removed_not_positive: "\<not> is_positive b k \<Longrightarrow> removed b k r = 0"
  by (simp add: removed_def is_positive_def split: option.splits)

lemma shift_other:
  "k \<noteq> src \<Longrightarrow> k \<noteq> dst \<Longrightarrow> map_of (shift src rate share dst e) k = map_of e k"
  by (simp add: shift_def map_of_dict_set split: option.splits)

lemma shift_src:
  "src \<noteq> dst \<Longrightarrow> map_of (shift src rate share dst e) src =
     (case map_of e src of None \<Rightarrow> None | Some v \<Rightarrow> if v > 0 then Some (v - v * rate) else Some v)"
  by (simp add: shift_def map_of_dict_set split: option.splits)

lemma shift_dst:
  "src \<noteq> dst \<Longrightarrow> map_of (shift src rate share dst e) dst =
     (if is_positive e src then Some (dict_get e dst 0 + removed e src rate * share)
      else map_of e dst)"
  by (simp add: shift_def map_of_dict_set is_positive_def removed_def dict_get_def
      split: option.splits)

lemma is_positive_shift_other:
  "k \<noteq> src \<Longrightarrow> k \<noteq> dst \<Longrightarrow> is_positive (shift src rate share dst e) k = is_positive e k"
  by (simp add: is_positive_def shift_other)

lemma removed_shift_other:
  "k \<noteq> src \<Longrightarrow> k \<noteq> dst \<Longrightarrow> removed (shift src rate share dst e) k r = removed e k r"
  by (simp add: removed_def shift_other)

lemma dict_get_shift_other:
  "k \<noteq> src \<Longrightarrow> k \<noteq> dst \<Longrightarrow> dict_get (shift src rate share dst e) k d = dict_get e k d"
  by (simp add: dict_get_def shift_other)

lemma dict_get_shift_dst:
  "src \<noteq> dst \<Longrightarrow> dict_get (shift src rate share dst e) dst 0 =
     dict_get e dst 0 + removed e src rate * share"
  by (simp add: shift_dst is_positive_def removed_def dict_get_def split: option.splits)

lemmas shift_simps = removed_not_positive shift_other shift_src shift_dst
  is_positive_shift_other removed_shift_other dict_get_shift_other dict_get_shift_dst

lemma sum_shift:
  "src \<noteq> dst \<Longrightarrow> sum_list (dict_values (shift src rate share dst e)) =
     sum_list (dict_values e) - removed e src rate * (1 - share)"
  by (simp add: shift_def sum_dict_set dict_get_def map_of_dict_set removed_def algebra_simps
      split: option.splits)

lemma nonneg_shift:
  assumes "\<forall>v \<in> set (dict_values e). 0 \<le> v" "0 \<le> rate" "rate \<le> 1" "0 \<le> share"
  shows "\<forall>v \<in> set (dict_values (shift src rate share dst e)). 0 \<le> v"
proof (cases "map_of e src")
  case None
  then show ?thesis using assms by (simp add: shift_def)
next
  case (Some v)
  show ?thesis
  proof (cases "v > 0")
    case False
    then show ?thesis using Some assms by (simp add: shift_def)
  next
    case True
    let ?e1 = "dict_set src (v - v * rate) e"
    have "v * rate \<le> v * 1"
      using True assms(3) by (intro mult_left_mono) auto
    then have src: "0 \<le> v - v * rate" by simp
    have e1: "\<forall>w \<in> set (dict_values ?e1). 0 \<le> w"
      using values_dict_set [of src "v - v * rate" e] assms(1) src by auto
    have "0 \<le> dict_get ?e1 dst 0"
      using e1 by (auto simp: dict_get_def dest: map_of_value split: option.splits)
    moreover have "0 \<le> v * rate * share"
      using True assms by simp
    ultimately have dst: "0 \<le> dict_get ?e1 dst 0 + v * rate * share" by simp
    have "\<forall>w \<in> set (dict_values (dict_set dst (dict_get ?e1 dst 0 + v * rate * share) ?e1)). 0 \<le> w"
      using values_dict_set [of dst "dict_get ?e1 dst 0 + v * rate * share" ?e1] e1 dst by auto
    then show ?thesis using Some True by (simp add: shift_def)
  qed
qed

subsection \<open>Digital posts\<close>

lemma digital_post_other: "k \<noteq> p \<Longrightarrow> map_of (digital_post r p e) k = map_of e k"
  by (simp add: digital_post_def map_of_dict_set split: option.splits)

lemma digital_post_self:
  "map_of (digital_post r p e) p =
     (case map_of e p of None \<Rightarrow> None | Some v \<Rightarrow> if v > 0 then Some (v * (1 - r)) else Some v)"
  by (simp add: digital_post_def map_of_dict_set split: option.splits)

lemma sum_digital_post:
  "sum_list (dict_values (digital_post r p e)) = sum_list (dict_values e) - removed e p r"
  by (simp add: digital_post_def sum_dict_set dict_get_def removed_def algebra_simps
      split: option.splits)

lemma keys_digital_post: "map fst (digital_post r p e) = map fst e"
  by (simp add: digital_post_def keys_dict_set split: option.splits)

lemma nonneg_digital_post:
  assumes "\<forall>v \<in> set (dict_values e). 0 \<le> v" "r \<le> 1"
  shows "\<forall>v \<in> set (dict_values (digital_post r p e)). 0 \<le> v"
proof (cases "map_of e p")
  case None
  then show ?thesis using assms by (simp add: digital_post_def)
next
  case (Some v)
  show ?thesis
  proof (cases "v > 0")
    case False
    then show ?thesis using Some assms by (simp add: digital_post_def)
  next
    case True
    then have "0 \<le> v * (1 - r)" using assms(2) by simp
    then have "\<forall>w \<in> set (dict_values (dict_set p (v * (1 - r)) e)). 0 \<le> w"
      using values_dict_set [of p "v * (1 - r)" e] assms(1) by auto
    then show ?thesis using Some True by (simp add: digital_post_def)
  qed
qed

lemma is_positive_digital_post_other:
  "k \<noteq> p \<Longrightarrow> is_positive (digital_post r p e) k = is_positive e k"
  by (simp add: is_positive_def digital_post_other)

lemma removed_digital_post_other:
  "k \<noteq> p \<Longrightarrow> removed (digital_post r p e) k q = removed e k q"
  by (simp add: removed_def digital_post_other)

lemma dict_get_digital_post_other:
  "k \<noteq> p \<Longrightarrow> dict_get (digital_post r p e) k d = dict_get e k d"
  by (simp add: dict_get_def digital_post_other)

lemmas digital_simps = digital_post_other digital_post_self is_positive_digital_post_other
  removed_digital_post_other dict_get_digital_post_other

subsection \<open>The unrolled loops\<close>

lemma modal_unfold:
  "scenario_modal_substitution b = mobility_shifts 0.6 0.4 0.15 CAR_SUBSTITUTION_RATE b"
  by (simp add: scenario_modal_substitution_def copy_emissions_id MAX_FLIGHT_SUBSTITUTION_def
      car_keys_def modal_flight_shift modal_car_shift mobility_shifts_def)

lemma digital_unfold: "scenario_digital_sobriety b = digital_cuts MAX_DIGITAL_REDUCTION b"
  by (simp add: scenario_digital_sobriety_def copy_emissions_id DIGITAL_SOBRIETY_POSTS_def
      digital_cuts_def)

lemma utility_unfold:
  "scenario_utility_aware b u =
     (case utility_parameters u of (dr, mf) \<Rightarrow>
        mobility_shifts (min (0.6 * mf) 0.6) (min (0.4 * mf) 0.4) (min (0.15 * mf) 0.15)
          (CAR_SUBSTITUTION_RATE * mf) (digital_cuts dr b))"
  by (simp add: scenario_utility_aware_def copy_emissions_id DIGITAL_SOBRIETY_POSTS_def
      MAX_FLIGHT_SUBSTITUTION_def car_keys_def utility_flight_shift utility_car_shift
      mobility_shifts_def digital_cuts_def split: prod.splits)

lemma shifts_untouched:
  assumes "k \<notin> {''flight_short'', ''flight_medium'', ''flight_long'', ''car_diesel'',
      ''car_essence'', ''train_tgv'', ''carpool''}"
  shows "map_of (mobility_shifts r1 r2 r3 rc e) k = map_of e k"
  using assms by (simp add: mobility_shifts_def shift_other)

lemma shifts_short:
  "map_of (mobility_shifts r1 r2 r3 rc e) ''flight_short'' =
     (case map_of e ''flight_short'' of None \<Rightarrow> None
      | Some v \<Rightarrow> if v > 0 then Some (v - v * r1) else Some v)"
  by (simp add: mobility_shifts_def shift_simps)

lemma shifts_medium:
  "map_of (mobility_shifts r1 r2 r3 rc e) ''flight_medium'' =
     (case map_of e ''flight_medium'' of None \<Rightarrow> None
      | Some v \<Rightarrow> if v > 0 then Some (v - v * r2) else Some v)"
  by (simp add: mobility_shifts_def shift_simps)

lemma shifts_long:
  "map_of (mobility_shifts r1 r2 r3 rc e) ''flight_long'' =
     (case map_of e ''flight_long'' of None \<Rightarrow> None
      | Some v \<Rightarrow> if v > 0 then Some (v - v * r3) else Some v)"
  by (simp add: mobility_shifts_def shift_simps)

lemma shifts_diesel:
  "map_of (mobility_shifts r1 r2 r3 rc e) ''car_diesel'' =
     (case map_of e ''car_diesel'' of None \<Rightarrow> None
      | Some v \<Rightarrow> if v > 0 then Some (v - v * rc) else Some v)"
  by (simp add: mobility_shifts_def shift_simps)

lemma shifts_essence:
  "map_of (mobility_shifts r1 r2 r3 rc e) ''car_essence'' =
     (case map_of e ''car_essence'' of None \<Rightarrow> None
      | Some v \<Rightarrow> if v > 0 then Some (v - v * rc) else Some v)"
  by (simp add: mobility_shifts_def shift_simps)

lemma shifts_train:
  "map_of (mobility_shifts r1 r2 r3 rc e) ''train_tgv'' =
     (if is_positive e ''flight_short'' \<or> is_positive e ''flight_medium''
         \<or> is_positive e ''flight_long''
      then Some (dict_get e ''train_tgv'' 0 +
        0.1 * (removed e ''flight_short'' r1 + removed e ''flight_medium'' r2
               + removed e ''flight_long'' r3))
      else map_of e ''train_tgv'')"
  by (simp add: mobility_shifts_def shift_simps algebra_simps)

lemma shifts_carpool:
  "map_of (mobility_shifts r1 r2 r3 rc e) ''carpool'' =
     (if is_positive e ''car_diesel'' \<or> is_positive e ''car_essence''
      then Some (dict_get e ''carpool'' 0 +
        (removed e ''car_diesel'' rc + removed e ''car_essence'' rc))
      else map_of e ''carpool'')"
  by (simp add: mobility_shifts_def shift_simps algebra_simps)

lemma sum_shifts:
  "sum_list (dict_values (mobility_shifts r1 r2 r3 rc e)) =
     sum_list (dict_values e) -
       0.9 * (removed e ''flight_short'' r1 + removed e ''flight_medium'' r2
              + removed e ''flight_long'' r3)"
  by (simp add: mobility_shifts_def sum_shift shift_simps algebra_simps)

lemma removed_nonneg: "0 \<le> r \<Longrightarrow> 0 \<le> removed e k r"
  by (simp add: removed_def split: option.splits)

lemma nonneg_shifts:
  assumes "\<forall>v \<in> set (dict_values e). 0 \<le> v"
    and "0 \<le> r1" "r1 \<le> 1" "0 \<le> r2" "r2 \<le> 1" "0 \<le> r3" "r3 \<le> 1" "0 \<le> rc" "rc \<le> 1"
  shows "\<forall>v \<in> set (dict_values (mobility_shifts r1 r2 r3 rc e)). 0 \<le> v"
  unfolding mobility_shifts_def using assms by (intro nonneg_shift) simp_all

lemma cuts_lookup:
  "map_of (digital_cuts r e) k =
     (if k \<in> set DIGITAL_SOBRIETY_POSTS then
        (case map_of e k of None \<Rightarrow> None
         | Some v \<Rightarrow> if v > 0 then Some (v * (1 - r)) else Some v)
      else map_of e k)"
  by (auto simp add: digital_cuts_def DIGITAL_SOBRIETY_POSTS_def digital_simps)

lemma cuts_keys: "map fst (digital_cuts r e) = map fst e"
  by (simp add: digital_cuts_def keys_digital_post)

lemma sum_cuts:
  "sum_list (dict_values (digital_cuts r e)) =
     sum_list (dict_values e) -
       (removed e ''cloud'' r + removed e ''video_conf'' r + removed e ''email'' r
        + removed e ''llm_usage'' r)"
  by (simp add: digital_cuts_def sum_digital_post digital_simps)

lemma nonneg_cuts:
  assumes "\<forall>v \<in> set (dict_values e). 0 \<le> v" "r \<le> 1"
  shows "\<forall>v \<in> set (dict_values (digital_cuts r e)). 0 \<le> v"
  unfolding digital_cuts_def using assms by (intro nonneg_digital_post) simp_all

lemma cuts_other:
  "k \<notin> set DIGITAL_SOBRIETY_POSTS \<Longrightarrow> map_of (digital_cuts r e) k = map_of e k"
  by (simp add: cuts_lookup)

lemma is_positive_cuts:
  "k \<notin> set DIGITAL_SOBRIETY_POSTS \<Longrightarrow> is_positive (digital_cuts r e) k = is_positive e k"
  by (simp add: is_positive_def cuts_other)

lemma removed_cuts:
  "k \<notin> set DIGITAL_SOBRIETY_POSTS \<Longrightarrow> removed (digital_cuts r e) k q = removed e k q"
  by (simp add: removed_def cuts_other)

lemma dict_get_cuts:
  "k \<notin> set DIGITAL_SOBRIETY_POSTS \<Longrightarrow> dict_get (digital_cuts r e) k d = dict_get e k d"
  by (simp add: dict_get_def cuts_other)

lemma flight_cases:
  assumes "(f, r) \<in> set MAX_FLIGHT_SUBSTITUTION"
  obtains "f = ''flight_short''" "r = 0.6" | "f = ''flight_medium''" "r = 0.4"
    | "f = ''flight_long''" "r = 0.15"
  using assms by (auto simp: MAX_FLIGHT_SUBSTITUTION_def)

lemma car_cases:
  assumes "c \<in> set car_keys"
  obtains "c = ''car_diesel''" | "c = ''car_essence''"
  using assms by (auto simp: car_keys_def)

lemma modal_flight_key:
  assumes "(f, r) \<in> set MAX_FLIGHT_SUBSTITUTION"
  shows "map_of (scenario_modal_substitution b) f =
     (case map_of b f of None \<Rightarrow> None | Some v \<Rightarrow> if v > 0 then Some (v - v * r) else Some v)"
  using assms
proof (cases rule: flight_cases)
  case 1
  show ?thesis unfolding 1 modal_unfold by (rule shifts_short)
next
  case 2
  show ?thesis unfolding 2 modal_unfold by (rule shifts_medium)
next
  case 3
  show ?thesis unfolding 3 modal_unfold by (rule shifts_long)
qed

lemma modal_car_key:
  assumes "c \<in> set car_keys"
  shows "map_of (scenario_modal_substitution b) c =
     (case map_of b c of None \<Rightarrow> None
      | Some v \<Rightarrow> if v > 0 then Some (v - v * CAR_SUBSTITUTION_RATE) else Some v)"
  using assms
proof (cases rule: car_cases)
  case 1
  show ?thesis unfolding 1 modal_unfold by (rule shifts_diesel)
next
  case 2
  show ?thesis unfolding 2 modal_unfold by (rule shifts_essence)
qed

lemma modal_train:
  "map_of (scenario_modal_substitution b) ''train_tgv'' =
     (if \<exists>(f, r) \<in> set MAX_FLIGHT_SUBSTITUTION. is_positive b f
      then Some (dict_get b ''train_tgv'' 0 +
                 0.1 * (\<Sum>(f, r) \<leftarrow> MAX_FLIGHT_SUBSTITUTION. removed b f r))
      else map_of b ''train_tgv'')"
  unfolding modal_unfold shifts_train by (simp add: MAX_FLIGHT_SUBSTITUTION_def)

lemma modal_carpool:
  "map_of (scenario_modal_substitution b) ''carpool'' =
     (if \<exists>c \<in> set car_keys. is_positive b c
      then Some (dict_get b ''carpool'' 0 +
                 (\<Sum>c \<leftarrow> car_keys. removed b c CAR_SUBSTITUTION_RATE))
      else map_of b ''carpool'')"
  unfolding modal_unfold shifts_carpool by (simp add: car_keys_def)

lemma modal_other:
  assumes "k \<notin> fst ` set MAX_FLIGHT_SUBSTITUTION \<union> set car_keys \<union> {''train_tgv'', ''carpool''}"
  shows "map_of (scenario_modal_substitution b) k = map_of b k"
  unfolding modal_unfold using assms
  by (intro shifts_untouched) (simp add: MAX_FLIGHT_SUBSTITUTION_def car_keys_def)

lemma modal_not_positive:
  assumes "k \<noteq> ''train_tgv''" "k \<noteq> ''carpool''" "\<not> is_positive b k"
  shows "map_of (scenario_modal_substitution b) k = map_of b k"
proof (cases "k \<in> fst ` set MAX_FLIGHT_SUBSTITUTION \<union> set car_keys")
  case False
  then show ?thesis using assms by (intro modal_other) simp
next
  case True
  then consider r where "(k, r) \<in> set MAX_FLIGHT_SUBSTITUTION" | "k \<in> set car_keys"
    by auto
  then show ?thesis
  proof cases
    case 1
    then show ?thesis
      using assms(3) modal_flight_key [of k r b]
      by (simp add: is_positive_def split: option.splits)
  next
    case 2
    then show ?thesis
      using assms(3) by (simp add: modal_car_key is_positive_def split: option.splits)
  qed
qed

lemma modal_example:
  "scenario_modal_substitution [(''flight_long'', 1000), (''train_tgv'', 0)] =
     [(''flight_long'', 850), (''train_tgv'', 15)]"
  by (simp add: modal_unfold mobility_shifts_def shift_def dict_get_def)

text \<open>
  C3. Modal substitution: a flight key with configured rate \<open>r\<close> and positive value \<open>v\<close>
  ends at \<open>v - v * r\<close>, and \<open>train_tgv\<close> gains a tenth of what the flights lost, being
  created at that amount when absent; a car key with positive value \<open>w\<close> ends at
  \<open>w - w * 0.3\<close>, and \<open>carpool\<close> gains all that the cars lost, being created when absent.
  A key other than the two destinations that is absent or not positive is left as it
  is, and so is every key outside the rules. The baseline
  \<open>{flight_long: 1000, train_tgv: 0}\<close> gives \<open>{flight_long: 850, train_tgv: 15}\<close>, of
  total 865.
\<close>

theorem modal_substitution_effect:
  "((f, r) \<in> set MAX_FLIGHT_SUBSTITUTION \<and> map_of b f = Some v \<and> 0 < v \<longrightarrow>
      map_of (scenario_modal_substitution b) f = Some (v - v * r))
   \<and> (c \<in> set car_keys \<and> map_of b c = Some w \<and> 0 < w \<longrightarrow>
      map_of (scenario_modal_substitution b) c = Some (w - w * 0.3))
   \<and> map_of (scenario_modal_substitution b) ''train_tgv'' =
      (if \<exists>(f, r) \<in> set MAX_FLIGHT_SUBSTITUTION. is_positive b f
       then Some (dict_get b ''train_tgv'' 0 +
                  0.1 * (\<Sum>(f, r) \<leftarrow> MAX_FLIGHT_SUBSTITUTION. removed b f r))
       else map_of b ''train_tgv'')
   \<and> map_of (scenario_modal_substitution b) ''carpool'' =
      (if \<exists>c \<in> set car_keys. is_positive b c
       then Some (dict_get b ''carpool'' 0 + (\<Sum>c \<leftarrow> car_keys. removed b c 0.3))
       else map_of b ''carpool'')
   \<and> (k \<noteq> ''train_tgv'' \<and> k \<noteq> ''carpool'' \<and> \<not> is_positive b k \<longrightarrow>
      map_of (scenario_modal_substitution b) k = map_of b k)
   \<and> (k' \<notin> fst ` set MAX_FLIGHT_SUBSTITUTION \<union> set car_keys \<union> {''train_tgv'', ''carpool''} \<longrightarrow>
      map_of (scenario_modal_substitution b) k' = map_of b k')
   \<and> scenario_modal_substitution [(''flight_long'', 1000), (''train_tgv'', 0)] =
        [(''flight_long'', 850), (''train_tgv'', 15)]
   \<and> sum_list (dict_values (scenario_modal_substitution [(''flight_long'', 1000), (''train_tgv'', 0)]))
        = 865"
proof (intro conjI impI)
  assume "(f, r) \<in> set MAX_FLIGHT_SUBSTITUTION \<and> map_of b f = Some v \<and> 0 < v"
  then show "map_of (scenario_modal_substitution b) f = Some (v - v * r)"
    using modal_flight_key [of f r b] by simp
next
  assume "c \<in> set car_keys \<and> map_of b c = Some w \<and> 0 < w"
  then show "map_of (scenario_modal_substitution b) c = Some (w - w * 0.3)"
    by (simp add: modal_car_key CAR_SUBSTITUTION_RATE_def)
next
  show "map_of (scenario_modal_substitution b) ''train_tgv'' =
      (if \<exists>(f, r) \<in> set MAX_FLIGHT_SUBSTITUTION. is_positive b f
       then Some (dict_get b ''train_tgv'' 0 +
                  0.1 * (\<Sum>(f, r) \<leftarrow> MAX_FLIGHT_SUBSTITUTION. removed b f r))
       else map_of b ''train_tgv'')"
    by (rule modal_train)
next
  show "map_of (scenario_modal_substitution b) ''carpool'' =
      (if \<exists>c \<in> set car_keys. is_positive b c
       then Some (dict_get b ''carpool'' 0 + (\<Sum>c \<leftarrow> car_keys. removed b c 0.3))
       else map_of b ''carpool'')"
    using modal_carpool [of b] by (simp add: CAR_SUBSTITUTION_RATE_def)
next
  assume "k \<noteq> ''train_tgv'' \<and> k \<noteq> ''carpool'' \<and> \<not> is_positive b k"
  then show "map_of (scenario_modal_substitution b) k = map_of b k"
    by (simp add: modal_not_positive)
next
  assume "k' \<notin> fst ` set MAX_FLIGHT_SUBSTITUTION \<union> set car_keys \<union> {''train_tgv'', ''carpool''}"
  then show "map_of (scenario_modal_substitution b) k' = map_of b k'"
    by (rule modal_other)
next
  show "scenario_modal_substitution [(''flight_long'', 1000), (''train_tgv'', 0)] =
        [(''flight_long'', 850), (''train_tgv'', 15)]"
    by (rule modal_example)
next
  show "sum_list (dict_values (scenario_modal_substitution [(''flight_long'', 1000), (''train_tgv'', 0)]))
        = 865"
    by (simp add: modal_example dict_values_def)
qed

theorem modal_substitution_effect_witness:
  "(''flight_long'', 0.15) \<in> set MAX_FLIGHT_SUBSTITUTION
   \<and> map_of [(''flight_long'', 1000), (''car_diesel'', 100), (''bus'', 5)] ''flight_long'' = Some (1000::real)
   \<and> map_of (scenario_modal_substitution [(''flight_long'', 1000), (''car_diesel'', 100), (''bus'', 5)])
        ''flight_long'' = Some 850
   \<and> ''car_diesel'' \<in> set car_keys
   \<and> map_of (scenario_modal_substitution [(''flight_long'', 1000), (''car_diesel'', 100), (''bus'', 5)])
        ''car_diesel'' = Some 70
   \<and> \<not> is_positive [(''flight_long'', 1000), (''car_diesel'', 100), (''bus'', 5)] ''flight_short''
   \<and> map_of (scenario_modal_substitution [(''flight_long'', 1000), (''car_diesel'', 100), (''bus'', 5)])
        ''flight_short'' = None
   \<and> ''bus'' \<notin> fst ` set MAX_FLIGHT_SUBSTITUTION \<union> set car_keys \<union> {''train_tgv'', ''carpool''}
   \<and> map_of (scenario_modal_substitution [(''flight_long'', 1000), (''car_diesel'', 100), (''bus'', 5)])
        ''bus'' = Some 5"
  using modal_substitution_effect [where b = "[(''flight_long'', 1000), (''car_diesel'', 100), (''bus'', 5)]"
      and f = "''flight_long''" and r = "0.15" and v = 1000 and c = "''car_diesel''" and w = 100
      and k = "''flight_short''" and k' = "''bus''"]
  by (simp add: MAX_FLIGHT_SUBSTITUTION_def car_keys_def is_positive_def)

text \<open>
  In exact arithmetic the sum of the modal scenario is the sum of the baseline less nine
  tenths of what the flights lost: the car shift gives back all it takes.
\<close>

lemma modal_sum_exact:
  "sum_list (dict_values (scenario_modal_substitution b)) =
     sum_list (dict_values b) - 0.9 * (\<Sum>(f, r) \<leftarrow> MAX_FLIGHT_SUBSTITUTION. removed b f r)
   \<and> sum_list (dict_values (scenario_modal_substitution b)) \<le> sum_list (dict_values b)"
proof -
  have eq: "sum_list (dict_values (scenario_modal_substitution b)) =
     sum_list (dict_values b) - 0.9 * (\<Sum>(f, r) \<leftarrow> MAX_FLIGHT_SUBSTITUTION. removed b f r)"
    by (simp add: modal_unfold sum_shifts MAX_FLIGHT_SUBSTITUTION_def)
  have "0 \<le> (\<Sum>(f, r) \<leftarrow> MAX_FLIGHT_SUBSTITUTION. removed b f r)"
    by (simp add: MAX_FLIGHT_SUBSTITUTION_def removed_nonneg)
  with eq show ?thesis by simp
qed

subsection \<open>Digital sobriety\<close>

lemma digital_example:
  "scenario_digital_sobriety [(''cloud'', 100), (''server'', 200)] =
     [(''cloud'', 70), (''server'', 200)]"
  by (simp add: digital_unfold digital_cuts_def digital_post_def MAX_DIGITAL_REDUCTION_def)

text \<open>
  C4. Digital sobriety: a key of the adjustable set \<open>{cloud, video_conf, email, llm_usage}\<close>
  with a positive value is multiplied by 0.7; a key outside the set, \<open>server\<close> and
  \<open>ai_training\<close> among them, keeps its baseline value, and no key is added or dropped. The
  baseline \<open>{cloud: 100, server: 200}\<close> gives \<open>{cloud: 70, server: 200}\<close>, of total 270.
\<close>

theorem digital_sobriety_effect:
  "set DIGITAL_SOBRIETY_POSTS = {''cloud'', ''video_conf'', ''email'', ''llm_usage''}
   \<and> (k \<in> set DIGITAL_SOBRIETY_POSTS \<and> map_of b k = Some v \<and> 0 < v \<longrightarrow>
        map_of (scenario_digital_sobriety b) k = Some (v * 0.7))
   \<and> (k' \<notin> set DIGITAL_SOBRIETY_POSTS \<longrightarrow>
        map_of (scenario_digital_sobriety b) k' = map_of b k')
   \<and> map_of (scenario_digital_sobriety b) ''server'' = map_of b ''server''
   \<and> map_of (scenario_digital_sobriety b) ''ai_training'' = map_of b ''ai_training''
   \<and> map fst (scenario_digital_sobriety b) = map fst b
   \<and> scenario_digital_sobriety [(''cloud'', 100), (''server'', 200)] =
        [(''cloud'', 70), (''server'', 200)]
   \<and> sum_list (dict_values (scenario_digital_sobriety [(''cloud'', 100), (''server'', 200)])) = 270"
proof (intro conjI impI)
  show "set DIGITAL_SOBRIETY_POSTS = {''cloud'', ''video_conf'', ''email'', ''llm_usage''}"
    by (simp add: DIGITAL_SOBRIETY_POSTS_def)
next
  assume "k \<in> set DIGITAL_SOBRIETY_POSTS \<and> map_of b k = Some v \<and> 0 < v"
  then show "map_of (scenario_digital_sobriety b) k = Some (v * 0.7)"
    by (simp add: digital_unfold cuts_lookup MAX_DIGITAL_REDUCTION_def)
next
  assume "k' \<notin> set DIGITAL_SOBRIETY_POSTS"
  then show "map_of (scenario_digital_sobriety b) k' = map_of b k'"
    by (simp add: digital_unfold cuts_lookup)
next
  show "map_of (scenario_digital_sobriety b) ''server'' = map_of b ''server''"
    by (simp add: digital_unfold cuts_lookup DIGITAL_SOBRIETY_POSTS_def)
next
  show "map_of (scenario_digital_sobriety b) ''ai_training'' = map_of b ''ai_training''"
    by (simp add: digital_unfold cuts_lookup DIGITAL_SOBRIETY_POSTS_def)
next
  show "map fst (scenario_digital_sobriety b) = map fst b"
    by (simp add: digital_unfold cuts_keys)
next
  show "scenario_digital_sobriety [(''cloud'', 100), (''server'', 200)] =
        [(''cloud'', 70), (''server'', 200)]"
    by (rule digital_example)
next
  show "sum_list (dict_values (scenario_digital_sobriety [(''cloud'', 100), (''server'', 200)])) = 270"
    by (simp add: digital_example dict_values_def)
qed

theorem digital_sobriety_effect_witness:
  "''email'' \<in> set DIGITAL_SOBRIETY_POSTS
   \<and> map_of [(''email'', 10), (''laptops'', 300)] ''email'' = Some (10::real)
   \<and> map_of (scenario_digital_sobriety [(''email'', 10), (''laptops'', 300)]) ''email'' = Some 7
   \<and> ''laptops'' \<notin> set DIGITAL_SOBRIETY_POSTS
   \<and> map_of (scenario_digital_sobriety [(''email'', 10), (''laptops'', 300)]) ''laptops'' = Some 300"
  using digital_sobriety_effect [where b = "[(''email'', 10), (''laptops'', 300)]"
      and k = "''email''" and v = 10 and k' = "''laptops''"]
  by (simp add: DIGITAL_SOBRIETY_POSTS_def)

subsection \<open>Utility-aware scenario\<close>

lemma utility_parameters_cases:
  obtains "8 \<le> u" "utility_parameters u = (0.1, 0.5)"
  | "5 \<le> u" "u < 8" "utility_parameters u = (0.25, 1.0)"
  | "u < 5" "utility_parameters u = (0.4, 1.3)"
  by (cases "8 \<le> u"; cases "5 \<le> u") (auto simp: utility_parameters_def)

lemma utility_parameters_bounds:
  "fst (utility_parameters u) \<in> {0.1, 0.25, 0.4} \<and> snd (utility_parameters u) \<in> {0.5, 1.0, 1.3}"
  by (simp add: utility_parameters_def)

lemma utility_unfold':
  "scenario_utility_aware b u =
     mobility_shifts (min (0.6 * snd (utility_parameters u)) 0.6)
       (min (0.4 * snd (utility_parameters u)) 0.4)
       (min (0.15 * snd (utility_parameters u)) 0.15)
       (CAR_SUBSTITUTION_RATE * snd (utility_parameters u))
       (digital_cuts (fst (utility_parameters u)) b)"
  by (simp add: utility_unfold split: prod.splits)

lemma source_keys_not_digital:
  "''flight_short'' \<notin> set DIGITAL_SOBRIETY_POSTS" "''flight_medium'' \<notin> set DIGITAL_SOBRIETY_POSTS"
  "''flight_long'' \<notin> set DIGITAL_SOBRIETY_POSTS" "''car_diesel'' \<notin> set DIGITAL_SOBRIETY_POSTS"
  "''car_essence'' \<notin> set DIGITAL_SOBRIETY_POSTS" "''train_tgv'' \<notin> set DIGITAL_SOBRIETY_POSTS"
  "''carpool'' \<notin> set DIGITAL_SOBRIETY_POSTS"
  by (simp_all add: DIGITAL_SOBRIETY_POSTS_def)

lemmas cuts_simps = cuts_other is_positive_cuts removed_cuts dict_get_cuts source_keys_not_digital

lemma utility_flight_key:
  assumes "(f, r) \<in> set MAX_FLIGHT_SUBSTITUTION"
  shows "map_of (scenario_utility_aware b u) f =
     (case map_of b f of None \<Rightarrow> None
      | Some v \<Rightarrow>
          if v > 0 then Some (v - v * min (r * snd (utility_parameters u)) r) else Some v)"
  using assms
proof (cases rule: flight_cases)
  case 1
  show ?thesis unfolding 1 utility_unfold' shifts_short by (simp add: cuts_simps)
next
  case 2
  show ?thesis unfolding 2 utility_unfold' shifts_medium by (simp add: cuts_simps)
next
  case 3
  show ?thesis unfolding 3 utility_unfold' shifts_long by (simp add: cuts_simps)
qed

lemma utility_car_key:
  assumes "c \<in> set car_keys"
  shows "map_of (scenario_utility_aware b u) c =
     (case map_of b c of None \<Rightarrow> None
      | Some v \<Rightarrow>
          if v > 0 then Some (v - v * (CAR_SUBSTITUTION_RATE * snd (utility_parameters u)))
          else Some v)"
  using assms
proof (cases rule: car_cases)
  case 1
  show ?thesis unfolding 1 utility_unfold' shifts_diesel by (simp add: cuts_simps)
next
  case 2
  show ?thesis unfolding 2 utility_unfold' shifts_essence by (simp add: cuts_simps)
qed

lemma utility_carpool:
  "map_of (scenario_utility_aware b u) ''carpool'' =
     (if \<exists>c \<in> set car_keys. is_positive b c
      then Some (dict_get b ''carpool'' 0 +
        (\<Sum>c \<leftarrow> car_keys. removed b c (CAR_SUBSTITUTION_RATE * snd (utility_parameters u))))
      else map_of b ''carpool'')"
  unfolding utility_unfold' shifts_carpool by (simp add: car_keys_def cuts_simps)

lemma utility_train:
  "map_of (scenario_utility_aware b u) ''train_tgv'' =
     (if \<exists>(f, r) \<in> set MAX_FLIGHT_SUBSTITUTION. is_positive b f
      then Some (dict_get b ''train_tgv'' 0 +
        0.1 * (\<Sum>(f, r) \<leftarrow> MAX_FLIGHT_SUBSTITUTION.
                 removed b f (min (r * snd (utility_parameters u)) r)))
      else map_of b ''train_tgv'')"
  unfolding utility_unfold' shifts_train by (simp add: MAX_FLIGHT_SUBSTITUTION_def cuts_simps)

lemma flight_step_capped:
  assumes "1 \<le> mf" "(f, r) \<in> set MAX_FLIGHT_SUBSTITUTION"
  shows "min (r * mf) r = r" "utility_flight mf (f, r) e = modal_flight (f, r) e"
proof -
  have "0 \<le> r" using assms(2) by (auto simp: MAX_FLIGHT_SUBSTITUTION_def)
  then have "r * 1 \<le> r * mf" using assms(1) by (intro mult_left_mono) auto
  then show "min (r * mf) r = r" by simp
  then show "utility_flight mf (f, r) e = modal_flight (f, r) e"
    by (simp add: utility_flight_shift modal_flight_shift)
qed

text \<open>
  C2. Utility-aware scenario, mobility part: a flight key with configured rate \<open>r\<close> and
  positive value \<open>v\<close> loses \<open>v * min (r * mobility_factor) r\<close>; for any factor of at least
  1 the capped rate is \<open>r\<close> itself and the flight step is that of the modal substitution,
  so for a score below 8 the flight loses \<open>v * r\<close>. A car key with positive value \<open>w\<close>
  loses \<open>w * 0.3 * mobility_factor\<close>, with no cap: for a score below 5 that is
  \<open>w * 0.3 * 1.3\<close>, more than \<open>w * 0.3\<close>. All that the cars lose is added to \<open>carpool\<close>.
\<close>

theorem utility_aware_mobility:
  "((f, r) \<in> set MAX_FLIGHT_SUBSTITUTION \<and> map_of b f = Some v \<and> 0 < v \<longrightarrow>
      map_of (scenario_utility_aware b u) f =
        Some (v - v * min (r * snd (utility_parameters u)) r))
   \<and> ((f, r) \<in> set MAX_FLIGHT_SUBSTITUTION \<and> 1 \<le> mf \<longrightarrow>
      min (r * mf) r = r \<and> utility_flight mf (f, r) e = modal_flight (f, r) e)
   \<and> ((f, r) \<in> set MAX_FLIGHT_SUBSTITUTION \<and> map_of b f = Some v \<and> 0 < v \<and> u < 8 \<longrightarrow>
      map_of (scenario_utility_aware b u) f = Some (v - v * r))
   \<and> (c \<in> set car_keys \<and> map_of b c = Some w \<and> 0 < w \<longrightarrow>
      map_of (scenario_utility_aware b u) c = Some (w - w * 0.3 * snd (utility_parameters u)))
   \<and> (c \<in> set car_keys \<and> map_of b c = Some w \<and> 0 < w \<and> u < 5 \<longrightarrow>
      map_of (scenario_utility_aware b u) c = Some (w - w * 0.3 * 1.3)
      \<and> w * 0.3 < w * 0.3 * 1.3)
   \<and> map_of (scenario_utility_aware b u) ''carpool'' =
      (if \<exists>c \<in> set car_keys. is_positive b c
       then Some (dict_get b ''carpool'' 0 +
                  (\<Sum>c \<leftarrow> car_keys. removed b c (0.3 * snd (utility_parameters u))))
       else map_of b ''carpool'')"
proof (intro conjI impI)
  assume "(f, r) \<in> set MAX_FLIGHT_SUBSTITUTION \<and> map_of b f = Some v \<and> 0 < v"
  then show "map_of (scenario_utility_aware b u) f =
      Some (v - v * min (r * snd (utility_parameters u)) r)"
    using utility_flight_key [of f r b u] by simp
next
  assume "(f, r) \<in> set MAX_FLIGHT_SUBSTITUTION \<and> 1 \<le> mf"
  then show "min (r * mf) r = r" "utility_flight mf (f, r) e = modal_flight (f, r) e"
    using flight_step_capped(1) [of mf f r] flight_step_capped(2) [of mf f r e] by simp_all
next
  assume a: "(f, r) \<in> set MAX_FLIGHT_SUBSTITUTION \<and> map_of b f = Some v \<and> 0 < v \<and> u < 8"
  then have "1 \<le> snd (utility_parameters u)"
    by (simp add: utility_parameters_def)
  then have "min (r * snd (utility_parameters u)) r = r"
    using a flight_step_capped(1) [of "snd (utility_parameters u)" f r] by simp
  then show "map_of (scenario_utility_aware b u) f = Some (v - v * r)"
    using a utility_flight_key [of f r b u] by simp
next
  assume "c \<in> set car_keys \<and> map_of b c = Some w \<and> 0 < w"
  then show "map_of (scenario_utility_aware b u) c =
      Some (w - w * 0.3 * snd (utility_parameters u))"
    using utility_car_key [of c b u] by (simp add: CAR_SUBSTITUTION_RATE_def)
next
  assume "c \<in> set car_keys \<and> map_of b c = Some w \<and> 0 < w \<and> u < 5"
  then show "map_of (scenario_utility_aware b u) c = Some (w - w * 0.3 * 1.3)"
      "w * 0.3 < w * 0.3 * 1.3"
    using utility_car_key [of c b u]
    by (simp_all add: CAR_SUBSTITUTION_RATE_def utility_parameters_def)
next
  show "map_of (scenario_utility_aware b u) ''carpool'' =
      (if \<exists>c \<in> set car_keys. is_positive b c
       then Some (dict_get b ''carpool'' 0 +
                  (\<Sum>c \<leftarrow> car_keys. removed b c (0.3 * snd (utility_parameters u))))
       else map_of b ''carpool'')"
    using utility_carpool [of b u] by (simp add: CAR_SUBSTITUTION_RATE_def)
qed

theorem utility_aware_mobility_witness:
  "(''flight_short'', 0.6) \<in> set MAX_FLIGHT_SUBSTITUTION
   \<and> map_of [(''flight_short'', 100), (''car_diesel'', 100)] ''flight_short'' = Some (100::real)
   \<and> (1::real) \<le> 1.3 \<and> (3::int) < 5
   \<and> ''car_diesel'' \<in> set car_keys
   \<and> map_of (scenario_utility_aware [(''flight_short'', 100), (''car_diesel'', 100)] 3)
        ''flight_short'' = Some 40
   \<and> min (0.6 * 1.3) 0.6 = (0.6::real)
   \<and> map_of (scenario_utility_aware [(''flight_short'', 100), (''car_diesel'', 100)] 3)
        ''car_diesel'' = Some 61
   \<and> map_of (scenario_utility_aware [(''flight_short'', 100), (''car_diesel'', 100)] 3)
        ''carpool'' = Some 39"
  using utility_aware_mobility [where b = "[(''flight_short'', 100), (''car_diesel'', 100)]"
      and u = 3 and f = "''flight_short''" and r = "0.6" and v = 100 and mf = "1.3"
      and c = "''car_diesel''" and w = 100 and e = "[]"]
  by (simp add: MAX_FLIGHT_SUBSTITUTION_def car_keys_def is_positive_def removed_def
      dict_get_def utility_parameters_def)

lemma utility_probe:
  "scenario_utility_aware [(''cloud'', 100), (''car_diesel'', 100)] u =
     [(''cloud'', 100 * (1 - fst (utility_parameters u))),
      (''car_diesel'', 100 - 30 * snd (utility_parameters u)),
      (''carpool'', 30 * snd (utility_parameters u))]"
  by (cases u rule: utility_parameters_cases)
    (simp_all add: utility_unfold' mobility_shifts_def digital_cuts_def shift_def
      digital_post_def dict_get_def CAR_SUBSTITUTION_RATE_def)

text \<open>
  C5. Tier selection of the utility-aware scenario: a score of at least 8 gives
  \<open>(digital_reduction, mobility_factor) = (0.10, 0.5)\<close>, a score from 5 to 7 gives
  \<open>(0.25, 1.0)\<close>, a score below 5 gives \<open>(0.40, 1.3)\<close>. So 8 is high, 7 and 5 are medium,
  4 is low, a negative score is low and a score above 10 is high. The parameters are
  the ones the scenario applies, as the baseline \<open>{cloud: 100, car_diesel: 100}\<close> shows.
\<close>

theorem utility_tier_selection:
  "(8 \<le> u \<longrightarrow> utility_parameters u = (0.10, 0.5))
   \<and> (5 \<le> u \<and> u < 8 \<longrightarrow> utility_parameters u = (0.25, 1.0))
   \<and> (u < 5 \<longrightarrow> utility_parameters u = (0.40, 1.3))
   \<and> utility_parameters 8 = (0.10, 0.5)
   \<and> utility_parameters 7 = (0.25, 1.0)
   \<and> utility_parameters 5 = (0.25, 1.0)
   \<and> utility_parameters 4 = (0.40, 1.3)
   \<and> (u < 0 \<longrightarrow> utility_parameters u = (0.40, 1.3))
   \<and> (10 < u \<longrightarrow> utility_parameters u = (0.10, 0.5))
   \<and> scenario_utility_aware [(''cloud'', 100), (''car_diesel'', 100)] u =
       [(''cloud'', 100 * (1 - fst (utility_parameters u))),
        (''car_diesel'', 100 - 30 * snd (utility_parameters u)),
        (''carpool'', 30 * snd (utility_parameters u))]"
  by (simp add: utility_parameters_def utility_probe)

theorem utility_tier_selection_witness:
  "utility_parameters 9 = (0.10, 0.5) \<and> utility_parameters 6 = (0.25, 1.0)
   \<and> utility_parameters 2 = (0.40, 1.3) \<and> utility_parameters (- 3) = (0.40, 1.3)
   \<and> utility_parameters 12 = (0.10, 0.5)
   \<and> scenario_utility_aware [(''cloud'', 100), (''car_diesel'', 100)] 9 =
       [(''cloud'', 90), (''car_diesel'', 85), (''carpool'', 15)]
   \<and> scenario_utility_aware [(''cloud'', 100), (''car_diesel'', 100)] 6 =
       [(''cloud'', 75), (''car_diesel'', 70), (''carpool'', 30)]
   \<and> scenario_utility_aware [(''cloud'', 100), (''car_diesel'', 100)] 2 =
       [(''cloud'', 60), (''car_diesel'', 61), (''carpool'', 39)]"
  using utility_tier_selection [of 9] utility_tier_selection [of 6] utility_tier_selection [of 2]
    utility_tier_selection [of "- 3"] utility_tier_selection [of 12]
  by simp

text \<open>
  C6. When every value of the baseline is non-negative, every value of each of the three
  scenarios is non-negative, for every utility score; the amounts accumulated under
  \<open>train_tgv\<close> and \<open>carpool\<close> are among these values.
\<close>

theorem scenarios_nonnegative:
  assumes "\<forall>v \<in> set (dict_values b). 0 \<le> v"
  shows "(\<forall>v \<in> set (dict_values (scenario_modal_substitution b)). 0 \<le> v)
    \<and> (\<forall>v \<in> set (dict_values (scenario_digital_sobriety b)). 0 \<le> v)
    \<and> (\<forall>v \<in> set (dict_values (scenario_utility_aware b u)). 0 \<le> v)"
proof (intro conjI)
  show "\<forall>v \<in> set (dict_values (scenario_modal_substitution b)). 0 \<le> v"
    unfolding modal_unfold using assms
    by (intro nonneg_shifts) (simp_all add: CAR_SUBSTITUTION_RATE_def)
next
  show "\<forall>v \<in> set (dict_values (scenario_digital_sobriety b)). 0 \<le> v"
    unfolding digital_unfold using assms
    by (intro nonneg_cuts) (simp_all add: MAX_DIGITAL_REDUCTION_def)
next
  have cuts: "\<forall>v \<in> set (dict_values (digital_cuts (fst (utility_parameters u)) b)). 0 \<le> v"
    using assms by (intro nonneg_cuts) (simp_all add: utility_parameters_def)
  show "\<forall>v \<in> set (dict_values (scenario_utility_aware b u)). 0 \<le> v"
    unfolding utility_unfold' using cuts
    by (intro nonneg_shifts) (simp_all add: utility_parameters_def CAR_SUBSTITUTION_RATE_def)
qed

theorem scenarios_nonnegative_witness:
  "list_all (\<lambda>v. 0 \<le> v)
     (dict_values [(''cloud'', 100), (''flight_short'', 100), (''car_diesel'', 100::real)])
   \<and> list_all (\<lambda>v. 0 \<le> v) (dict_values (scenario_modal_substitution
          [(''cloud'', 100), (''flight_short'', 100), (''car_diesel'', 100)]))
   \<and> list_all (\<lambda>v. 0 \<le> v) (dict_values (scenario_digital_sobriety
          [(''cloud'', 100), (''flight_short'', 100), (''car_diesel'', 100)]))
   \<and> list_all (\<lambda>v. 0 \<le> v) (dict_values (scenario_utility_aware
          [(''cloud'', 100), (''flight_short'', 100), (''car_diesel'', 100)] 3))"
proof -
  have h: "\<forall>v \<in> set (dict_values [(''cloud'', 100), (''flight_short'', 100), (''car_diesel'', 100::real)]). 0 \<le> v"
    by (simp add: dict_values_def)
  show ?thesis
    using h scenarios_nonnegative [OF h, of 3] by (simp add: list_all_iff)
qed

text \<open>
  In exact arithmetic the digital sobriety scenario sums to the baseline sum less what the
  four adjustable keys lost, and the utility-aware scenario to the baseline sum less what
  the adjustable keys lost and less nine tenths of what the flights lost.
\<close>

lemma scenario_sums_exact:
  "sum_list (dict_values (scenario_digital_sobriety b)) =
     sum_list (dict_values b) - (\<Sum>p \<leftarrow> DIGITAL_SOBRIETY_POSTS. removed b p 0.3)
   \<and> sum_list (dict_values (scenario_digital_sobriety b)) \<le> sum_list (dict_values b)
   \<and> sum_list (dict_values (scenario_utility_aware b u)) =
     sum_list (dict_values b)
       - (\<Sum>p \<leftarrow> DIGITAL_SOBRIETY_POSTS. removed b p (fst (utility_parameters u)))
       - 0.9 * (\<Sum>(f, r) \<leftarrow> MAX_FLIGHT_SUBSTITUTION.
                  removed b f (min (r * snd (utility_parameters u)) r))
   \<and> sum_list (dict_values (scenario_utility_aware b u)) \<le> sum_list (dict_values b)"
proof -
  have d: "sum_list (dict_values (scenario_digital_sobriety b)) =
     sum_list (dict_values b) - (\<Sum>p \<leftarrow> DIGITAL_SOBRIETY_POSTS. removed b p 0.3)"
    by (simp add: digital_unfold sum_cuts DIGITAL_SOBRIETY_POSTS_def MAX_DIGITAL_REDUCTION_def)
  have dn: "0 \<le> (\<Sum>p \<leftarrow> DIGITAL_SOBRIETY_POSTS. removed b p 0.3)"
    by (simp add: DIGITAL_SOBRIETY_POSTS_def removed_nonneg)
  have u: "sum_list (dict_values (scenario_utility_aware b u)) =
     sum_list (dict_values b)
       - (\<Sum>p \<leftarrow> DIGITAL_SOBRIETY_POSTS. removed b p (fst (utility_parameters u)))
       - 0.9 * (\<Sum>(f, r) \<leftarrow> MAX_FLIGHT_SUBSTITUTION.
                  removed b f (min (r * snd (utility_parameters u)) r))"
    by (simp add: utility_unfold' sum_shifts sum_cuts cuts_simps DIGITAL_SOBRIETY_POSTS_def
        MAX_FLIGHT_SUBSTITUTION_def)
  have un1: "0 \<le> (\<Sum>p \<leftarrow> DIGITAL_SOBRIETY_POSTS. removed b p (fst (utility_parameters u)))"
    by (simp add: DIGITAL_SOBRIETY_POSTS_def removed_nonneg utility_parameters_def)
  have un2: "0 \<le> (\<Sum>(f, r) \<leftarrow> MAX_FLIGHT_SUBSTITUTION.
                  removed b f (min (r * snd (utility_parameters u)) r))"
    by (simp add: MAX_FLIGHT_SUBSTITUTION_def removed_nonneg utility_parameters_def)
  show ?thesis using d dn u un1 un2 by simp
qed

subsection \<open>Emission calculator\<close>

lemmas parse_defs = py_float_def py_int_def sign_of_def strip_def is_space_def digit_of_def
  exponent_of_def to_lower_def

lemma dict_set_fresh: "k \<notin> fst ` set e \<Longrightarrow> dict_set k v e = e @ [(k, v)]"
  by (induction e) auto

text \<open>The entries the loop adds for a list of factors, in order.\<close>

lemma fold_emission_step:
  assumes "distinct (map fst fs)" "fst ` set fs \<inter> fst ` set e = {}"
  shows "fold (emission_step fd) fs (e, t) =
     (e @ map (\<lambda>(k, f). (k, py_round (activity_value fd k * f) 2))
            (filter (\<lambda>(k, f). activity_value fd k * f > 0) fs),
      t + sum_list (map (\<lambda>(k, f). py_round (activity_value fd k * f) 2)
            (filter (\<lambda>(k, f). activity_value fd k * f > 0) fs)))"
  using assms
proof (induction fs arbitrary: e t)
  case Nil
  then show ?case by simp
next
  case (Cons kf fs)
  obtain k f where kf: "kf = (k, f)" by (cases kf)
  have fresh: "k \<notin> fst ` set e" using Cons.prems(2) kf by auto
  show ?case
  proof (cases "activity_value fd k * f > 0")
    case False
    then have "emission_step fd kf (e, t) = (e, t)"
      by (simp add: emission_step_def kf)
    moreover have "fst ` set fs \<inter> fst ` set e = {}" using Cons.prems(2) by auto
    ultimately show ?thesis
      using Cons.IH [of e t] Cons.prems(1) False by (simp add: kf)
  next
    case True
    let ?v = "py_round (activity_value fd k * f) 2"
    have step: "emission_step fd kf (e, t) = (e @ [(k, ?v)], t + ?v)"
      using True fresh by (simp add: emission_step_def kf Let_def dict_set_fresh)
    have "fst ` set fs \<inter> fst ` set (e @ [(k, ?v)]) = {}"
      using Cons.prems kf by auto
    then show ?thesis
      using Cons.IH [of "e @ [(k, ?v)]" "t + ?v"] Cons.prems(1) True step
      by (simp add: kf)
  qed
qed

lemma distinct_FACTORS: "distinct (map fst FACTORS)"
  by (simp add: FACTORS_def)

lemma calculate_emissions_eq:
  "calculate_emissions fd =
     (map (\<lambda>(k, f). (k, py_round (activity_value fd k * f) 2))
        (filter (\<lambda>(k, f). activity_value fd k * f > 0) FACTORS),
      sum_list (map (\<lambda>(k, f). py_round (activity_value fd k * f) 2)
        (filter (\<lambda>(k, f). activity_value fd k * f > 0) FACTORS)))"
  unfolding calculate_emissions_def
  using fold_emission_step [OF distinct_FACTORS, of "[]" fd 0] by simp

text \<open>
  The calculator keeps a key exactly when the product of quantity and factor, before
  rounding, is positive; the amount stored is the rounded product, and the total is the
  sum of the amounts stored.
\<close>

lemma calculate_emissions_keys:
  "k \<in> fst ` set (fst (calculate_emissions fd)) \<longleftrightarrow>
     (\<exists>f. (k, f) \<in> set FACTORS \<and> activity_value fd k * f > 0)"
  by (force simp: calculate_emissions_eq)

lemma calculate_emissions_total:
  "snd (calculate_emissions fd) = sum_list (dict_values (fst (calculate_emissions fd)))"
  by (simp add: calculate_emissions_eq dict_values_def comp_def case_prod_unfold)

text \<open>
  A raw value that is absent, that \<open>float\<close> rejects, that is negative (\<open>-inf\<close> included)
  or that is \<open>nan\<close> counts as the quantity 0, and its key is left out of the mapping.
\<close>

lemma activity_value_clamped:
  assumes "map_of fd k = None \<or> (\<exists>s. map_of fd k = Some s \<and> py_float s = None)
     \<or> (\<exists>s x. map_of fd k = Some s \<and> py_float s = Some (Finite x) \<and> x < 0)
     \<or> (\<exists>s. map_of fd k = Some s \<and> py_float s = Some MinusInfinity)
     \<or> (\<exists>s. map_of fd k = Some s \<and> py_float s = Some NotANumber)"
  shows "activity_value fd k = 0" "k \<notin> fst ` set (fst (calculate_emissions fd))"
proof -
  show "activity_value fd k = 0"
    using assms by (auto simp: activity_value_def)
  then show "k \<notin> fst ` set (fst (calculate_emissions fd))"
    by (simp add: calculate_emissions_keys)
qed

lemma py_float_1: "py_float ''1'' = Some (Finite 1)"
  by (simp add: parse_defs)

text \<open>
  C1. The calculator is said to keep a key exactly when its amount, rounded to 2 decimal
  places, is positive. The code tests \<open>emission_value > 0\<close> before it rounds, so a positive
  product below 0.005 is kept with the rounded amount 0: one LLM request, of factor
  0.001, gives the product 0.001, and the mapping returned holds \<open>llm_usage\<close> at 0.
\<close>

theorem calculate_emissions_keeps_zero_amount:
  "calculate_emissions [(''llm_usage'', ''1'')] = ([(''llm_usage'', 0)], 0)
   \<and> map_of (fst (calculate_emissions [(''llm_usage'', ''1'')])) ''llm_usage'' = Some 0
   \<and> activity_value [(''llm_usage'', ''1'')] ''llm_usage'' * 0.001 = 0.001
   \<and> py_round 0.001 2 = 0"
proof -
  have a: "activity_value [(''llm_usage'', ''1'')] k = (if k = ''llm_usage'' then 1 else 0)" for k
    by (simp add: activity_value_def py_float_1)
  have r: "py_round (1 / 1000) 2 = 0"
    by (simp add: py_round_def round_half_even_def)
  have "calculate_emissions [(''llm_usage'', ''1'')] = ([(''llm_usage'', 0)], 0)"
    by (simp add: calculate_emissions_eq a FACTORS_def r)
  then show ?thesis using a r by simp
qed

subsection \<open>Results route\<close>

lemma py_div_ok: "b \<noteq> 0 \<Longrightarrow> py_div a b = Inr (a / b)"
  by (simp add: py_div_def)

lemma and_then_Inr: "and_then (Inr x) f = f x"
  by (simp add: and_then_def)

lemma classify_profile_eq:
  "classify_profile bt ds ms =
     Inr (if bt < 100 then ''low''
          else if ds / bt > 0.6 then ''digital''
          else if ms / bt > 0.6 then ''mobility''
          else if ds / bt > 0.3 \<and> ms / bt > 0.3 then ''mixed''
          else ''other'')"
proof (cases "bt < 100")
  case True
  then show ?thesis by (simp add: classify_profile_def)
next
  case False
  then have "bt \<noteq> 0" by simp
  then show ?thesis
    using False by (simp add: classify_profile_def py_div_ok and_then_Inr)
qed

lemma reduction_eq:
  "reduction bt v = Inr (if bt > 0 then py_round ((bt - v) / bt * 100) 2 else 0)"
  by (simp add: reduction_def py_div_ok and_then_Inr)

lemma reductions_of_eq:
  "reductions_of bt totals =
     Inr (map (\<lambda>(k, v). (k, if bt > 0 then py_round ((bt - v) / bt * 100) 2 else 0))
            (filter (\<lambda>(k, v). k \<noteq> ''baseline'') totals))"
  by (induction totals) (auto simp: reduction_eq and_then_Inr)

text \<open>The route after the parsing of the score never raises.\<close>

lemma indicators_total: "\<exists>r. indicators b bt u = Inr r"
proof -
  have "\<exists>p. (case b of
          [] \<Rightarrow> Inr ('''', 0)
        | x # xs \<Rightarrow>
            if bt > 0 then
              (case max_item x xs of (dominant_post, dominant_value) \<Rightarrow>
                 and_then (py_div dominant_value bt) (\<lambda>q.
                   Inr (dominant_post, py_round (q * 100) 1)))
            else Inr ('''', 0)) = Inr p"
    by (cases b) (auto simp: py_div_ok and_then_Inr split: prod.splits)
  then show ?thesis
    unfolding indicators_def
    by (auto simp: and_then_Inr classify_profile_eq reductions_of_eq Let_def split: prod.splits)
qed

lemma indicators_profile:
  "indicators b bt u = Inr r \<Longrightarrow>
     classify_profile bt (sum_over digital_posts b) (sum_over mobility_posts b)
       = Inr (arg_baseline_profile r)"
  unfolding indicators_def
  by (auto simp: and_then_def classify_profile_eq reductions_of_eq Let_def
      split: prod.splits sum.splits)

lemma scenarios_empty:
  "scenario_modal_substitution [] = []" "scenario_digital_sobriety [] = []"
  "scenario_utility_aware [] u = []"
  by (simp_all add: modal_unfold digital_unfold utility_unfold' mobility_shifts_def
      digital_cuts_def shift_def digital_post_def)

lemma py_round_0: "py_round 0 n = 0"
  by (simp add: py_round_def round_half_even_def)

lemma indicators_empty:
  "indicators [] 0 u =
     Inr \<lparr> arg_results = [],
           arg_totals = [(''baseline'', 0), (''modal'', 0), (''digital'', 0), (''utility'', 0)],
           arg_reductions = [(''modal'', 0), (''digital'', 0), (''utility'', 0)],
           arg_utility = u,
           arg_dominant_post = '''',
           arg_dominant_share = 0,
           arg_baseline_profile = ''low'' \<rparr>"
  by (simp add: indicators_def and_then_Inr classify_profile_eq reductions_of_eq scenarios_empty
      total_of_def dict_values_def py_round_0 sum_over_def replace_underscores_def)

lemma calculate_emissions_empty: "calculate_emissions [] = ([], 0)"
  by (simp add: calculate_emissions_eq activity_value_def)

lemma results_empty:
  "results [] =
     Inr \<lparr> arg_results = [],
           arg_totals = [(''baseline'', 0), (''modal'', 0), (''digital'', 0), (''utility'', 0)],
           arg_reductions = [(''modal'', 0), (''digital'', 0), (''utility'', 0)],
           arg_utility = 0,
           arg_dominant_post = '''',
           arg_dominant_share = 0,
           arg_baseline_profile = ''low'' \<rparr>"
  by (simp add: results_def calculate_emissions_empty py_round_0 mission_utility_def
      and_then_Inr indicators_empty)

text \<open>
  C8. Profile classification: the branches are tried in order and the first that holds
  wins: a total below 100 is \<open>low\<close>; otherwise a digital share above 0.6 is \<open>digital\<close>;
  otherwise a mobility share above 0.6 is \<open>mobility\<close>; otherwise both shares above 0.3 is
  \<open>mixed\<close>; otherwise \<open>other\<close>. The comparisons are strict: a total of exactly 100 is not
  \<open>low\<close>, a share of exactly 0.6 or 0.3 does not pass. The route classifies the baseline
  by this chain on its total and its two sums, and never raises there. For the empty
  baseline, all totals and reductions are 0, the dominant key is empty with share 0, and
  the profile is \<open>low\<close>.
\<close>

theorem profile_classification:
  "classify_profile bt ds ms =
     Inr (if bt < 100 then ''low''
          else if ds / bt > 0.6 then ''digital''
          else if ms / bt > 0.6 then ''mobility''
          else if ds / bt > 0.3 \<and> ms / bt > 0.3 then ''mixed''
          else ''other'')
   \<and> (\<exists>r. indicators b bt u = Inr r
        \<and> classify_profile bt (sum_over digital_posts b) (sum_over mobility_posts b)
            = Inr (arg_baseline_profile r))
   \<and> classify_profile 99.99 99.99 0 = Inr ''low''
   \<and> classify_profile 100 70 70 = Inr ''digital''
   \<and> classify_profile 100 60 70 = Inr ''mobility''
   \<and> classify_profile 100 60 40 = Inr ''mixed''
   \<and> classify_profile 100 40 60 = Inr ''mixed''
   \<and> classify_profile 100 30 60 = Inr ''other''
   \<and> classify_profile 100 60 30 = Inr ''other''
   \<and> indicators [] 0 u =
       Inr \<lparr> arg_results = [],
             arg_totals = [(''baseline'', 0), (''modal'', 0), (''digital'', 0), (''utility'', 0)],
             arg_reductions = [(''modal'', 0), (''digital'', 0), (''utility'', 0)],
             arg_utility = u,
             arg_dominant_post = '''',
             arg_dominant_share = 0,
             arg_baseline_profile = ''low'' \<rparr>
   \<and> results [] =
       Inr \<lparr> arg_results = [],
             arg_totals = [(''baseline'', 0), (''modal'', 0), (''digital'', 0), (''utility'', 0)],
             arg_reductions = [(''modal'', 0), (''digital'', 0), (''utility'', 0)],
             arg_utility = 0,
             arg_dominant_post = '''',
             arg_dominant_share = 0,
             arg_baseline_profile = ''low'' \<rparr>"
proof -
  obtain r where r: "indicators b bt u = Inr r"
    using indicators_total by blast
  then have "\<exists>r. indicators b bt u = Inr r
        \<and> classify_profile bt (sum_over digital_posts b) (sum_over mobility_posts b)
            = Inr (arg_baseline_profile r)"
    using indicators_profile by blast
  moreover have "classify_profile 99.99 99.99 0 = Inr ''low''"
    "classify_profile 100 70 70 = Inr ''digital''"
    "classify_profile 100 60 70 = Inr ''mobility''"
    "classify_profile 100 60 40 = Inr ''mixed''"
    "classify_profile 100 40 60 = Inr ''mixed''"
    "classify_profile 100 30 60 = Inr ''other''"
    "classify_profile 100 60 30 = Inr ''other''"
    by (simp_all add: classify_profile_eq)
  ultimately show ?thesis
    using classify_profile_eq [of bt ds ms] indicators_empty [of u] results_empty by simp
qed

lemma py_int_abc: "py_int ''abc'' = Inl ValueError"
  by (simp add: parse_defs)

lemma py_int_empty: "py_int '''' = Inl ValueError"
  by (simp add: parse_defs)

lemma py_int_decimal: "py_int ''7.5'' = Inl ValueError"
  by (simp add: parse_defs)

lemma results_error:
  "results fd = Inl err \<longleftrightarrow> mission_utility fd = Inl err"
proof (cases "mission_utility fd")
  case (Inl e)
  then show ?thesis
    by (simp add: results_def and_then_def split: prod.splits)
next
  case (Inr u)
  obtain e t where c: "calculate_emissions fd = (e, t)"
    by (cases "calculate_emissions fd")
  obtain r where "indicators e (py_round t 2) u = Inr r"
    using indicators_total by blast
  then show ?thesis
    using Inr c by (simp add: results_def and_then_def)
qed

text \<open>
  C9. Every numeric parsing failure is said to degrade silently to zero, that of the
  utility score included. The calculator does so (\<open>activity_value_clamped\<close>), but the
  route reads the score with \<open>int(form_data.get("mission_utility", 0))\<close> outside any
  \<open>try\<close>: a field that is not an integer literal raises \<open>ValueError\<close>, and the route
  returns nothing.
\<close>

theorem results_raises_on_malformed_utility:
  "results [(''mission_utility'', ''abc'')] = Inl ValueError
   \<and> results [(''mission_utility'', '''')] = Inl ValueError
   \<and> results [(''mission_utility'', ''7.5'')] = Inl ValueError"
  by (simp add: results_error mission_utility_def py_int_abc py_int_empty py_int_decimal)

subsection \<open>The order of iteration over the set literals\<close>

text \<open>
  The car keys and the digital sobriety posts are Python sets, iterated in an order the
  language does not fix. The loops give the same dictionary in every order.
\<close>

lemma dict_set_overwrite: "dict_set k v (dict_set k w d) = dict_set k v d"
  by (induction d) auto

lemma dict_set_commute:
  "k1 \<noteq> k2 \<Longrightarrow> map_of d k1 \<noteq> None \<Longrightarrow>
     dict_set k1 v1 (dict_set k2 v2 d) = dict_set k2 v2 (dict_set k1 v1 d)"
  by (induction d) auto

lemma digital_post_commute:
  "digital_post r p (digital_post r q e) = digital_post r q (digital_post r p e)"
proof (cases "p = q")
  case True
  then show ?thesis by simp
next
  case False
  show ?thesis
  proof (cases "is_positive e p \<and> is_positive e q")
    case True
    then obtain vp vq where v: "map_of e p = Some vp" "0 < vp" "map_of e q = Some vq" "0 < vq"
      by (auto simp: is_positive_def split: option.splits)
    then show ?thesis
      using False dict_set_commute [of p q e "vp * (1 - r)" "vq * (1 - r)"]
      by (simp add: digital_post_def map_of_dict_set)
  next
    case False
    then show ?thesis
      using \<open>p \<noteq> q\<close>
      by (auto simp: digital_post_def map_of_dict_set is_positive_def split: option.splits)
  qed
qed

lemma shift_both:
  assumes "a \<noteq> b" "a \<noteq> d" "b \<noteq> d"
    and "map_of e a = Some va" "0 < va" "map_of e b = Some vb" "0 < vb"
  shows "shift a ra sa d (shift b rb sb d e) =
     dict_set d (dict_get e d 0 + vb * rb * sb + va * ra * sa)
       (dict_set a (va - va * ra) (dict_set b (vb - vb * rb) e))"
proof -
  let ?eb = "dict_set b (vb - vb * rb) e"
  let ?w1 = "dict_get e d 0 + vb * rb * sb"
  have sb: "shift b rb sb d e = dict_set d ?w1 ?eb"
    using assms by (simp add: shift_def dict_get_def map_of_dict_set)
  have a_in: "map_of (dict_set d ?w1 ?eb) a = Some va" "map_of ?eb a \<noteq> None"
    using assms by (simp_all add: map_of_dict_set)
  have "shift a ra sa d (dict_set d ?w1 ?eb) =
      dict_set d (?w1 + va * ra * sa) (dict_set a (va - va * ra) (dict_set d ?w1 ?eb))"
    using a_in(1) assms(2,5) by (simp add: shift_def dict_get_def map_of_dict_set)
  also have "dict_set a (va - va * ra) (dict_set d ?w1 ?eb) =
      dict_set d ?w1 (dict_set a (va - va * ra) ?eb)"
    using a_in(2) assms(2) by (intro dict_set_commute) simp_all
  finally show ?thesis
    by (simp add: sb dict_set_overwrite)
qed

lemma shift_commute:
  assumes "a \<noteq> b" "a \<noteq> d" "b \<noteq> d"
  shows "shift a ra sa d (shift b rb sb d e) = shift b rb sb d (shift a ra sa d e)"
proof (cases "\<not> is_positive e a \<or> \<not> is_positive e b")
  case True
  then show ?thesis
  proof
    assume na: "\<not> is_positive e a"
    then have "\<not> is_positive (shift b rb sb d e) a"
      using assms by (simp add: is_positive_shift_other)
    then have "shift a ra sa d (shift b rb sb d e) = shift b rb sb d e"
      by (auto simp: shift_def is_positive_def split: option.splits)
    moreover have "shift a ra sa d e = e"
      using na by (auto simp: shift_def is_positive_def split: option.splits)
    ultimately show ?thesis by simp
  next
    assume nb: "\<not> is_positive e b"
    then have "\<not> is_positive (shift a ra sa d e) b"
      using assms by (simp add: is_positive_shift_other)
    then have "shift b rb sb d (shift a ra sa d e) = shift a ra sa d e"
      by (auto simp: shift_def is_positive_def split: option.splits)
    moreover have "shift b rb sb d e = e"
      using nb by (auto simp: shift_def is_positive_def split: option.splits)
    ultimately show ?thesis by simp
  qed
next
  case False
  then obtain va vb where v: "map_of e a = Some va" "0 < va" "map_of e b = Some vb" "0 < vb"
    by (auto simp: is_positive_def split: option.splits)
  have "dict_set a (va - va * ra) (dict_set b (vb - vb * rb) e) =
      dict_set b (vb - vb * rb) (dict_set a (va - va * ra) e)"
    using v assms(1) by (intro dict_set_commute) simp_all
  then show ?thesis
    using shift_both [OF assms v, of ra sa rb sb]
      shift_both [OF assms(1) [symmetric] assms(3,2) v(3,4,1,2), of rb sb ra sa]
    by (simp add: algebra_simps)
qed

lemma modal_car_commute: "modal_car x \<circ> modal_car y = modal_car y \<circ> modal_car x"
  if "x \<in> set car_keys" "y \<in> set car_keys"
proof (cases "x = y")
  case True
  then show ?thesis by simp
next
  case False
  then show ?thesis
    using that by (auto simp: fun_eq_iff modal_car_shift car_keys_def intro!: shift_commute)
qed

lemma utility_car_commute:
  "utility_car mf x \<circ> utility_car mf y = utility_car mf y \<circ> utility_car mf x"
  if "x \<in> set car_keys" "y \<in> set car_keys"
proof (cases "x = y")
  case True
  then show ?thesis by simp
next
  case False
  then show ?thesis
    using that by (auto simp: fun_eq_iff utility_car_shift car_keys_def intro!: shift_commute)
qed

lemma car_loop_order:
  assumes "mset cs = mset car_keys"
  shows "fold modal_car cs e = fold modal_car car_keys e"
    and "fold (utility_car mf) cs e = fold (utility_car mf) car_keys e"
proof -
  have "fold modal_car car_keys = fold modal_car cs"
    using assms by (intro fold_multiset_equiv modal_car_commute) simp_all
  then show "fold modal_car cs e = fold modal_car car_keys e" by simp
  have "fold (utility_car mf) car_keys = fold (utility_car mf) cs"
    using assms by (intro fold_multiset_equiv utility_car_commute) simp_all
  then show "fold (utility_car mf) cs e = fold (utility_car mf) car_keys e" by simp
qed

lemma digital_loop_order:
  assumes "mset ps = mset DIGITAL_SOBRIETY_POSTS"
  shows "fold (digital_post r) ps e = fold (digital_post r) DIGITAL_SOBRIETY_POSTS e"
proof -
  have "fold (digital_post r) DIGITAL_SOBRIETY_POSTS = fold (digital_post r) ps"
    using assms by (intro fold_multiset_equiv) (simp_all add: fun_eq_iff digital_post_commute)
  then show ?thesis by simp
qed

subsection \<open>Keys stay distinct\<close>

lemma distinct_dict_set: "distinct (map fst d) \<Longrightarrow> distinct (map fst (dict_set k v d))"
  by (auto simp: keys_dict_set dest: weak_map_of_SomeI)

lemma distinct_shift: "distinct (map fst e) \<Longrightarrow> distinct (map fst (shift src rate share dst e))"
  by (simp add: shift_def distinct_dict_set split: option.splits)

lemma distinct_scenarios:
  assumes "distinct (map fst b)"
  shows "distinct (map fst (scenario_modal_substitution b))"
    and "distinct (map fst (scenario_digital_sobriety b))"
    and "distinct (map fst (scenario_utility_aware b u))"
  using assms
  by (simp_all add: modal_unfold digital_unfold utility_unfold' mobility_shifts_def
      distinct_shift cuts_keys)

lemma distinct_calculate_emissions: "distinct (map fst (fst (calculate_emissions fd)))"
proof -
  have "map fst (fst (calculate_emissions fd)) =
      map fst (filter (\<lambda>(k, f). activity_value fd k * f > 0) FACTORS)"
    by (simp add: calculate_emissions_eq comp_def case_prod_unfold)
  then show ?thesis
    using distinct_FACTORS by (simp add: distinct_map_filter)
qed

subsection \<open>Rounding to a double\<close>

lemma round_half_even_error: "\<bar>of_int (round_half_even y) - y\<bar> \<le> 1 / 2"
proof -
  have "of_int \<lfloor>y\<rfloor> \<le> y" "y < of_int \<lfloor>y\<rfloor> + 1" by linarith+
  then show ?thesis
    by (auto simp: round_half_even_def Let_def)
qed

lemma round_half_even_nonneg: "0 \<le> y \<Longrightarrow> 0 \<le> round_half_even y"
  by (auto simp: round_half_even_def Let_def)

lemma binade_lower: "x \<noteq> 0 \<Longrightarrow> 2 powi binade x \<le> \<bar>x\<bar>"
proof (cases "1 \<le> \<bar>x\<bar>")
  case True
  then have pos: "0 < \<lfloor>\<bar>x\<bar>\<rfloor>" by linarith
  then have "1 \<le> bitlen \<lfloor>\<bar>x\<bar>\<rfloor>"
    using bitlen_eq_zero_iff [of "\<lfloor>\<bar>x\<bar>\<rfloor>"] bitlen_nonneg [of "\<lfloor>\<bar>x\<bar>\<rfloor>"] by linarith
  then have "2 powi (bitlen \<lfloor>\<bar>x\<bar>\<rfloor> - 1) = (2::real) ^ nat (bitlen \<lfloor>\<bar>x\<bar>\<rfloor> - 1)"
    by (simp add: power_int_def)
  also have "\<dots> = of_int (2 ^ nat (bitlen \<lfloor>\<bar>x\<bar>\<rfloor> - 1))" by simp
  also have "\<dots> \<le> of_int \<lfloor>\<bar>x\<bar>\<rfloor>"
    using bitlen_bounds [OF pos] by (intro of_int_le_iff [THEN iffD2]) simp
  also have "\<dots> \<le> \<bar>x\<bar>" by linarith
  finally show ?thesis using True by (simp add: binade_def)
next
  case False
  assume nz: "x \<noteq> 0"
  let ?m = "\<lceil>1 / \<bar>x\<bar>\<rceil> - 1"
  let ?k = "bitlen ?m"
  have gt1: "1 < 1 / \<bar>x\<bar>" using False nz by simp
  then have pos: "0 < ?m" by linarith
  have k0: "0 \<le> ?k" by (rule bitlen_nonneg)
  have "?m < 2 ^ nat ?k" using bitlen_bounds [OF pos] by simp
  then have "\<lceil>1 / \<bar>x\<bar>\<rceil> \<le> 2 ^ nat ?k" by simp
  then have "1 / \<bar>x\<bar> \<le> of_int (2 ^ nat ?k)"
    by (simp only: ceiling_le_iff)
  then have le: "1 / \<bar>x\<bar> \<le> 2 ^ nat ?k" by simp
  have "1 / 2 ^ nat ?k \<le> \<bar>x\<bar>"
  proof -
    have "1 \<le> 2 ^ nat ?k * \<bar>x\<bar>"
      using le nz by (simp add: field_simps)
    then show ?thesis by (simp add: field_simps)
  qed
  moreover have "2 powi (- ?k) = 1 / (2::real) ^ nat ?k"
    using k0 by (simp add: power_int_def field_simps)
  ultimately show ?thesis using False by (simp add: binade_def)
qed

lemma fl_zero: "fl 0 = 0"
  by (simp add: fl_def)

lemma fl_error: "\<bar>fl x - x\<bar> \<le> \<bar>x\<bar> * unit_roundoff"
proof (cases "x = 0")
  case True
  then show ?thesis by (simp add: fl_def)
next
  case False
  define s :: real where "s = 2 powi (binade x - 52)"
  have s: "0 < s" by (simp add: s_def)
  have flx: "fl x = of_int (round_half_even (x / s)) * s"
    using False by (simp add: fl_def s_def Let_def)
  have "fl x - x = (of_int (round_half_even (x / s)) - x / s) * s"
    using s by (simp add: flx field_simps)
  then have "\<bar>fl x - x\<bar> = \<bar>of_int (round_half_even (x / s)) - x / s\<bar> * s"
    using s by (simp add: abs_mult)
  also have "\<dots> \<le> 1 / 2 * s"
    using round_half_even_error [of "x / s"] s by (intro mult_right_mono) simp_all
  also have "1 / 2 * s = 2 powi binade x * unit_roundoff"
    by (simp add: s_def power_int_diff unit_roundoff_def)
  also have "\<dots> \<le> \<bar>x\<bar> * unit_roundoff"
    using binade_lower [OF False] by (intro mult_right_mono) (simp_all add: unit_roundoff_def)
  finally show ?thesis .
qed

lemma fl_nonneg: "0 \<le> x \<Longrightarrow> 0 \<le> fl x"
  by (simp add: fl_def Let_def round_half_even_nonneg)

lemma fl_upper: "0 \<le> x \<Longrightarrow> fl x \<le> x * (1 + unit_roundoff)"
  using fl_error [of x] by (simp add: algebra_simps)

lemma fl_lower: "0 \<le> x \<Longrightarrow> x * (1 - unit_roundoff) \<le> fl x"
  using fl_error [of x] by (simp add: algebra_simps)

subsection \<open>The engine on doubles: what a step does to the sum\<close>

lemma unit_roundoff_pos: "0 < unit_roundoff"
  by (simp add: unit_roundoff_def)

lemma fmul_bound:
  assumes "0 \<le> a" "0 \<le> b"
  shows "0 \<le> fmul a b" "fmul a b \<le> a * b * (1 + unit_roundoff)"
  using assms fl_nonneg [of "a * b"] fl_upper [of "a * b"] by (simp_all add: fmul_def)

lemma fmul_contract:
  assumes "0 \<le> a" "0 \<le> b" "b * (1 + unit_roundoff) \<le> 1"
  shows "0 \<le> fmul a b" "fmul a b \<le> a"
proof -
  show "0 \<le> fmul a b" using assms by (simp add: fmul_bound)
  have "fmul a b \<le> a * (b * (1 + unit_roundoff))"
    using fmul_bound(2) [OF assms(1,2)] by (simp add: mult.assoc)
  also have "\<dots> \<le> a * 1"
    using assms(1,3) by (intro mult_left_mono)
  finally show "fmul a b \<le> a" by simp
qed

text \<open>A rate written in the source as a decimal of at most 0.75, read as a double.\<close>

lemma rate_ok:
  assumes "0 \<le> r" "r \<le> 3 / 4"
  shows "0 \<le> fl r" "fl r * (1 + unit_roundoff) \<le> 1"
proof -
  show "0 \<le> fl r" using assms by (simp add: fl_nonneg)
  have "fl r \<le> r * (1 + unit_roundoff)" using assms by (simp add: fl_upper)
  also have "\<dots> \<le> 3 / 4 * (1 + unit_roundoff)"
    using assms unit_roundoff_pos by (intro mult_right_mono) simp_all
  finally have "fl r * (1 + unit_roundoff) \<le> 3 / 4 * (1 + unit_roundoff) * (1 + unit_roundoff)"
    using unit_roundoff_pos by (intro mult_right_mono) simp_all
  also have "\<dots> \<le> 1" by (simp add: unit_roundoff_def)
  finally show "fl r * (1 + unit_roundoff) \<le> 1" .
qed

text \<open>The amount a car loses in the utility-aware scenario, for a factor of at most 1.3.\<close>

lemma car_reduced_ok:
  assumes "0 \<le> v" "0 \<le> mf" "mf \<le> 13 / 10"
  shows "0 \<le> fmul (fmul v (fl CAR_SUBSTITUTION_RATE)) (fl mf)"
    and "fmul (fmul v (fl CAR_SUBSTITUTION_RATE)) (fl mf) \<le> v"
proof -
  let ?K = "1 + unit_roundoff"
  let ?c = "fl CAR_SUBSTITUTION_RATE"
  let ?m = "fl mf"
  have K: "0 \<le> ?K" using unit_roundoff_pos by simp
  have c: "0 \<le> ?c" "?c \<le> 3 / 10 * ?K"
    using fl_nonneg [of CAR_SUBSTITUTION_RATE] fl_upper [of CAR_SUBSTITUTION_RATE]
    by (simp_all add: CAR_SUBSTITUTION_RATE_def)
  have m: "0 \<le> ?m" "?m \<le> 13 / 10 * ?K"
  proof -
    show "0 \<le> ?m" using assms by (simp add: fl_nonneg)
    have "?m \<le> mf * ?K" using assms by (simp add: fl_upper)
    also have "\<dots> \<le> 13 / 10 * ?K" using assms K by (intro mult_right_mono)
    finally show "?m \<le> 13 / 10 * ?K" .
  qed
  have x1: "0 \<le> fmul v ?c" "fmul v ?c \<le> v * (3 / 10 * ?K * ?K)"
  proof -
    show "0 \<le> fmul v ?c" using assms c by (simp add: fmul_bound)
    have "fmul v ?c \<le> v * ?c * ?K" using assms c by (simp add: fmul_bound)
    also have "\<dots> \<le> v * (3 / 10 * ?K) * ?K"
      using assms c K by (intro mult_right_mono mult_left_mono)
    finally show "fmul v ?c \<le> v * (3 / 10 * ?K * ?K)" by (simp add: mult.assoc)
  qed
  show "0 \<le> fmul (fmul v ?c) ?m" using x1 m by (simp add: fmul_bound)
  have "fmul (fmul v ?c) ?m \<le> fmul v ?c * ?m * ?K" using x1 m by (simp add: fmul_bound)
  also have "\<dots> \<le> v * (3 / 10 * ?K * ?K) * (13 / 10 * ?K) * ?K"
    using x1 m K assms by (intro mult_right_mono mult_mono) simp_all
  also have "\<dots> = v * (3 / 10 * ?K * ?K * (13 / 10 * ?K) * ?K)"
    by (simp add: mult.assoc)
  also have "\<dots> \<le> v * 1"
    using assms by (intro mult_left_mono) (simp_all add: unit_roundoff_def)
  finally show "fmul (fmul v ?c) ?m \<le> v" by simp
qed

text \<open>The factor \<open>1 - reduction\<close> of a digital cut, for a reduction between 0.1 and 0.4.\<close>

lemma digital_factor_ok:
  assumes "1 / 10 \<le> r" "r \<le> 2 / 5"
  shows "0 \<le> fsub 1 (fl r)" "fsub 1 (fl r) * (1 + unit_roundoff) \<le> 1"
proof -
  let ?K = "1 + unit_roundoff"
  have K: "0 \<le> ?K" using unit_roundoff_pos by simp
  have up: "fl r \<le> 2 / 5 * ?K"
  proof -
    have "fl r \<le> r * ?K" using assms by (simp add: fl_upper)
    also have "\<dots> \<le> 2 / 5 * ?K" using assms K by (intro mult_right_mono)
    finally show ?thesis .
  qed
  have lo: "1 / 10 * (1 - unit_roundoff) \<le> fl r"
  proof -
    have "1 / 10 * (1 - unit_roundoff) \<le> r * (1 - unit_roundoff)"
      using assms by (intro mult_right_mono) (simp_all add: unit_roundoff_def)
    also have "\<dots> \<le> fl r" using assms by (simp add: fl_lower)
    finally show ?thesis .
  qed
  have y: "0 \<le> 1 - fl r" using up by (simp add: unit_roundoff_def)
  then show "0 \<le> fsub 1 (fl r)" by (simp add: fsub_def fl_nonneg)
  have "fsub 1 (fl r) \<le> (1 - fl r) * ?K" using y by (simp add: fsub_def fl_upper)
  also have "\<dots> \<le> (1 - 1 / 10 * (1 - unit_roundoff)) * ?K"
    using lo K by (intro mult_right_mono) simp_all
  finally have "fsub 1 (fl r) * ?K \<le> (1 - 1 / 10 * (1 - unit_roundoff)) * ?K * ?K"
    using K by (intro mult_right_mono)
  also have "\<dots> \<le> 1" by (simp add: unit_roundoff_def)
  finally show "fsub 1 (fl r) * ?K \<le> 1" .
qed

lemma dict_get_nonneg:
  "\<forall>v \<in> set (dict_values e). 0 \<le> v \<Longrightarrow> 0 \<le> dict_get e k (0::real)"
  by (auto simp: dict_get_def dest: map_of_value split: option.splits)

lemma sum_nonneg_dict: "\<forall>v \<in> set (dict_values e). 0 \<le> (v::real) \<Longrightarrow> 0 \<le> sum_list (dict_values e)"
  by (induction e) (auto simp: dict_values_def)

lemma dict_get_le_sum:
  "\<forall>v \<in> set (dict_values e). 0 \<le> v \<Longrightarrow> dict_get e a (0::real) \<le> sum_list (dict_values e)"
proof (induction e)
  case Nil
  then show ?case by (simp add: dict_get_def dict_values_def)
next
  case (Cons p e)
  then have "0 \<le> snd p" and e: "\<forall>v \<in> set (dict_values e). 0 \<le> v"
    by (auto simp: dict_values_def)
  then show ?case
    using Cons.IH [OF e] sum_nonneg_dict [OF e]
    by (cases p) (auto simp: dict_get_def dict_values_def)
qed

lemma dict_pair_le_sum:
  assumes "\<forall>v \<in> set (dict_values e). 0 \<le> v" "a \<noteq> b"
  shows "dict_get e a 0 + dict_get e b (0::real) \<le> sum_list (dict_values e)"
  using assms(1)
proof (induction e)
  case Nil
  then show ?case by (simp add: dict_get_def dict_values_def)
next
  case (Cons p e)
  obtain k v where p: "p = (k, v)" by (cases p)
  have v: "0 \<le> v" and e: "\<forall>v \<in> set (dict_values e). 0 \<le> v"
    using Cons.prems by (auto simp: dict_values_def p)
  have s: "sum_list (dict_values (p # e)) = v + sum_list (dict_values e)"
    by (simp add: dict_values_def p)
  consider "k = a" | "k = b" | "k \<noteq> a" "k \<noteq> b" by blast
  then show ?case
  proof cases
    case 1
    then have "dict_get (p # e) a 0 = v" "dict_get (p # e) b 0 = dict_get e b 0"
      using assms(2) by (simp_all add: dict_get_def p)
    then show ?thesis using dict_get_le_sum [OF e, of b] s by simp
  next
    case 2
    then have "dict_get (p # e) b 0 = v" "dict_get (p # e) a 0 = dict_get e a 0"
      using assms(2) by (simp_all add: dict_get_def p)
    then show ?thesis using dict_get_le_sum [OF e, of a] s by simp
  next
    case 3
    then have "dict_get (p # e) b 0 = dict_get e b 0" "dict_get (p # e) a 0 = dict_get e a 0"
      by (simp_all add: dict_get_def p)
    then show ?thesis using Cons.IH [OF e] s v by simp
  qed
qed

lemma nonneg_dict_set:
  assumes "\<forall>w \<in> set (dict_values e). 0 \<le> w" "0 \<le> (v::real)"
  shows "\<forall>w \<in> set (dict_values (dict_set k v e)). 0 \<le> w"
  using values_dict_set [of k v e] assms by auto

lemma shift_f64_step:
  assumes nn: "\<forall>v \<in> set (dict_values e). 0 \<le> v" and ne: "src \<noteq> dst"
    and red: "\<And>v. 0 < v \<Longrightarrow> 0 \<le> red v \<and> red v \<le> v"
    and gain: "\<And>r. 0 \<le> r \<Longrightarrow> 0 \<le> gain r \<and> gain r \<le> r"
  shows "\<forall>v \<in> set (dict_values (shift_f64 src red gain dst e)). 0 \<le> v"
    and "sum_list (dict_values (shift_f64 src red gain dst e))
           \<le> sum_list (dict_values e) * (1 + unit_roundoff)"
proof -
  let ?K = "1 + unit_roundoff"
  let ?S = "sum_list (dict_values e)"
  have S: "0 \<le> ?S" using nn by (rule sum_nonneg_dict)
  have triv: "?S \<le> ?S * ?K"
    using S unit_roundoff_pos by (simp add: algebra_simps)
  show "\<forall>v \<in> set (dict_values (shift_f64 src red gain dst e)). 0 \<le> v"
  proof (cases "map_of e src")
    case None
    then show ?thesis using nn by (simp add: shift_f64_def)
  next
    case (Some v)
    show ?thesis
    proof (cases "0 < v")
      case False
      then show ?thesis using Some nn by (simp add: shift_f64_def)
    next
      case True
      let ?e1 = "dict_set src (fsub v (red v)) e"
      have a: "0 \<le> fsub v (red v)"
        using red [OF True] by (simp add: fsub_def fl_nonneg)
      have e1: "\<forall>w \<in> set (dict_values ?e1). 0 \<le> w"
        using nn a by (rule nonneg_dict_set)
      have "0 \<le> dict_get ?e1 dst 0 + gain (red v)"
        using dict_get_nonneg [OF e1, of dst] gain [of "red v"] red [OF True] by simp
      then have "0 \<le> fadd (dict_get ?e1 dst 0) (gain (red v))"
        by (simp add: fadd_def fl_nonneg)
      then have "\<forall>w \<in> set (dict_values
          (dict_set dst (fadd (dict_get ?e1 dst 0) (gain (red v))) ?e1)). 0 \<le> w"
        by (rule nonneg_dict_set [OF e1])
      then show ?thesis using Some True by (simp add: shift_f64_def)
    qed
  qed
  show "sum_list (dict_values (shift_f64 src red gain dst e)) \<le> ?S * ?K"
  proof (cases "map_of e src")
    case None
    then show ?thesis using triv by (simp add: shift_f64_def)
  next
    case (Some v)
    show ?thesis
    proof (cases "0 < v")
      case False
      then show ?thesis using Some triv by (simp add: shift_f64_def)
    next
      case True
      define r where "r = red v"
      define G where "G = gain r"
      define g where "g = dict_get e dst 0"
      define a where "a = fsub v r"
      define b where "b = fadd g G"
      let ?e1 = "dict_set src a e"
      have r: "0 \<le> r" "r \<le> v" using red [OF True] by (simp_all add: r_def)
      have G: "0 \<le> G" "G \<le> r" using gain [OF r(1)] by (simp_all add: G_def)
      have g: "0 \<le> g" using dict_get_nonneg [OF nn] by (simp add: g_def)
      have g1: "dict_get ?e1 dst 0 = g"
        using ne by (simp add: dict_get_def map_of_dict_set g_def)
      have vsrc: "dict_get e src 0 = v" using Some by (simp add: dict_get_def)
      have out: "shift_f64 src red gain dst e = dict_set dst b ?e1"
        using Some True g1 by (simp add: shift_f64_def a_def b_def r_def G_def)
      have sum: "sum_list (dict_values (dict_set dst b ?e1)) = ?S + a - v + b - g"
        by (simp add: sum_dict_set g1 vsrc)
      have vg: "v + g \<le> ?S"
        using dict_pair_le_sum [OF nn ne] vsrc by (simp add: g_def)
      have "a \<le> (v - r) * ?K" using r by (simp add: a_def fsub_def fl_upper)
      moreover have "b \<le> (g + G) * ?K" using g G by (simp add: b_def fadd_def fl_upper)
      moreover have "(G - r) * ?K \<le> 0"
        using G unit_roundoff_pos by (simp add: mult_le_0_iff)
      ultimately have "a + b \<le> (v + g) * ?K"
        by (simp add: algebra_simps)
      also have "\<dots> = v + g + unit_roundoff * (v + g)"
        by (simp add: algebra_simps)
      also have "\<dots> \<le> v + g + unit_roundoff * ?S"
        using vg unit_roundoff_pos by (simp add: mult_left_mono)
      finally have "?S + a - v + b - g \<le> ?S * ?K"
        by (simp add: algebra_simps)
      then show ?thesis by (simp add: out sum)
    qed
  qed
qed

lemma digital_post_f64_step:
  assumes nn: "\<forall>v \<in> set (dict_values e). 0 \<le> v" and r: "1 / 10 \<le> r" "r \<le> 2 / 5"
  shows "\<forall>v \<in> set (dict_values (digital_post_f64 r p e)). 0 \<le> v"
    and "sum_list (dict_values (digital_post_f64 r p e)) \<le> sum_list (dict_values e)"
proof -
  note c = digital_factor_ok [OF r]
  show "\<forall>v \<in> set (dict_values (digital_post_f64 r p e)). 0 \<le> v"
  proof (cases "map_of e p")
    case None
    then show ?thesis using nn by (simp add: digital_post_f64_def)
  next
    case (Some v)
    show ?thesis
    proof (cases "0 < v")
      case False
      then show ?thesis using Some nn by (simp add: digital_post_f64_def)
    next
      case True
      then have "0 \<le> fmul v (fsub 1 (fl r))" using c by (simp add: fmul_bound)
      then have "\<forall>w \<in> set (dict_values (dict_set p (fmul v (fsub 1 (fl r))) e)). 0 \<le> w"
        by (rule nonneg_dict_set [OF nn])
      then show ?thesis using Some True by (simp add: digital_post_f64_def)
    qed
  qed
  show "sum_list (dict_values (digital_post_f64 r p e)) \<le> sum_list (dict_values e)"
  proof (cases "map_of e p")
    case None
    then show ?thesis by (simp add: digital_post_f64_def)
  next
    case (Some v)
    show ?thesis
    proof (cases "0 < v")
      case False
      then show ?thesis using Some by (simp add: digital_post_f64_def)
    next
      case True
      then have "fmul v (fsub 1 (fl r)) \<le> v" using c by (intro fmul_contract) simp_all
      then show ?thesis
        using Some True by (simp add: digital_post_f64_def sum_dict_set dict_get_def)
    qed
  qed
qed

lemma digital_post_f64_both:
  assumes "\<forall>v \<in> set (dict_values e). 0 \<le> v" "1 / 10 \<le> r" "r \<le> 2 / 5"
  shows "(\<forall>v \<in> set (dict_values (digital_post_f64 r p e)). 0 \<le> v)
    \<and> sum_list (dict_values (digital_post_f64 r p e)) \<le> sum_list (dict_values e) * 1"
  using digital_post_f64_step [OF assms] by simp

lemma modal_flight_f64_shift:
  "modal_flight_f64 (f, r) e =
     shift_f64 f (\<lambda>v. fmul v (fl r)) (\<lambda>x. fmul x (fl 0.1)) ''train_tgv'' e"
  by (simp add: modal_flight_f64_def shift_f64_def Let_def split: option.splits)

lemma modal_car_f64_shift:
  "modal_car_f64 c e =
     shift_f64 c (\<lambda>v. fmul v (fl CAR_SUBSTITUTION_RATE)) (\<lambda>x. x) ''carpool'' e"
  by (simp add: modal_car_f64_def shift_f64_def Let_def split: option.splits)

lemma utility_flight_f64_shift:
  "utility_flight_f64 mf (f, r) e =
     shift_f64 f (\<lambda>v. fmul v (min (fmul (fl r) (fl mf)) (fl r))) (\<lambda>x. fmul x (fl 0.1))
       ''train_tgv'' e"
  by (simp add: utility_flight_f64_def shift_f64_def Let_def split: option.splits)

lemma utility_car_f64_shift:
  "utility_car_f64 mf c e =
     shift_f64 c (\<lambda>v. fmul (fmul v (fl CAR_SUBSTITUTION_RATE)) (fl mf)) (\<lambda>x. x) ''carpool'' e"
  by (simp add: utility_car_f64_def shift_f64_def Let_def split: option.splits)

lemma gain_rail_ok: "0 \<le> x \<Longrightarrow> 0 \<le> fmul x (fl 0.1) \<and> fmul x (fl 0.1) \<le> x"
  using rate_ok [of "0.1"] fmul_contract [of x "fl 0.1"] by simp

lemma flight_rate_bounds:
  assumes "(f, r) \<in> set MAX_FLIGHT_SUBSTITUTION"
  shows "0 \<le> r" "r \<le> 3 / 4" "f \<noteq> ''train_tgv''"
  using assms by (auto simp: MAX_FLIGHT_SUBSTITUTION_def)

lemma modal_flight_f64_step:
  assumes "\<forall>v \<in> set (dict_values e). 0 \<le> v" "fr \<in> set MAX_FLIGHT_SUBSTITUTION"
  shows "(\<forall>v \<in> set (dict_values (modal_flight_f64 fr e)). 0 \<le> v)
    \<and> sum_list (dict_values (modal_flight_f64 fr e))
        \<le> sum_list (dict_values e) * (1 + unit_roundoff)"
proof -
  obtain f r where fr: "fr = (f, r)" by (cases fr)
  note b = flight_rate_bounds [OF assms(2) [unfolded fr]]
  have red: "0 \<le> fmul v (fl r) \<and> fmul v (fl r) \<le> v" if "0 < v" for v
    using that rate_ok [OF b(1,2)] fmul_contract [of v "fl r"] by simp
  show ?thesis
    unfolding fr modal_flight_f64_shift
    using shift_f64_step [OF assms(1) b(3), of "\<lambda>v. fmul v (fl r)" "\<lambda>x. fmul x (fl 0.1)",
        OF red gain_rail_ok]
    by simp
qed

lemma utility_flight_f64_step:
  assumes "\<forall>v \<in> set (dict_values e). 0 \<le> v" "fr \<in> set MAX_FLIGHT_SUBSTITUTION" "0 \<le> mf"
  shows "(\<forall>v \<in> set (dict_values (utility_flight_f64 mf fr e)). 0 \<le> v)
    \<and> sum_list (dict_values (utility_flight_f64 mf fr e))
        \<le> sum_list (dict_values e) * (1 + unit_roundoff)"
proof -
  obtain f r where fr: "fr = (f, r)" by (cases fr)
  note b = flight_rate_bounds [OF assms(2) [unfolded fr]]
  let ?q = "min (fmul (fl r) (fl mf)) (fl r)"
  have q0: "0 \<le> ?q"
    using rate_ok(1) [OF b(1,2)] assms(3) by (simp add: fmul_bound fl_nonneg)
  have "?q * (1 + unit_roundoff) \<le> fl r * (1 + unit_roundoff)"
    using unit_roundoff_pos by (intro mult_right_mono) simp_all
  then have q1: "?q * (1 + unit_roundoff) \<le> 1"
    using rate_ok(2) [OF b(1,2)] by simp
  have red: "0 \<le> fmul v ?q \<and> fmul v ?q \<le> v" if "0 < v" for v
    using that q0 q1 fmul_contract [of v ?q] by simp
  show ?thesis
    unfolding fr utility_flight_f64_shift
    using shift_f64_step [OF assms(1) b(3), of "\<lambda>v. fmul v ?q" "\<lambda>x. fmul x (fl 0.1)",
        OF red gain_rail_ok]
    by simp
qed

lemma car_key_not_carpool: "c \<in> set car_keys \<Longrightarrow> c \<noteq> ''carpool''"
  by (auto simp: car_keys_def)

lemma modal_car_f64_step:
  assumes "\<forall>v \<in> set (dict_values e). 0 \<le> v" "c \<in> set car_keys"
  shows "(\<forall>v \<in> set (dict_values (modal_car_f64 c e)). 0 \<le> v)
    \<and> sum_list (dict_values (modal_car_f64 c e))
        \<le> sum_list (dict_values e) * (1 + unit_roundoff)"
proof -
  have red: "0 \<le> fmul v (fl CAR_SUBSTITUTION_RATE) \<and> fmul v (fl CAR_SUBSTITUTION_RATE) \<le> v"
    if "0 < v" for v
    using that rate_ok [of CAR_SUBSTITUTION_RATE] fmul_contract [of v "fl CAR_SUBSTITUTION_RATE"]
    by (simp add: CAR_SUBSTITUTION_RATE_def)
  show ?thesis
    unfolding modal_car_f64_shift
    using shift_f64_step [OF assms(1) car_key_not_carpool [OF assms(2)],
        of "\<lambda>v. fmul v (fl CAR_SUBSTITUTION_RATE)" "\<lambda>x. x", OF red]
    by simp
qed

lemma utility_car_f64_step:
  assumes "\<forall>v \<in> set (dict_values e). 0 \<le> v" "c \<in> set car_keys" "0 \<le> mf" "mf \<le> 13 / 10"
  shows "(\<forall>v \<in> set (dict_values (utility_car_f64 mf c e)). 0 \<le> v)
    \<and> sum_list (dict_values (utility_car_f64 mf c e))
        \<le> sum_list (dict_values e) * (1 + unit_roundoff)"
proof -
  have red: "0 \<le> fmul (fmul v (fl CAR_SUBSTITUTION_RATE)) (fl mf)
      \<and> fmul (fmul v (fl CAR_SUBSTITUTION_RATE)) (fl mf) \<le> v" if "0 < v" for v
    using that car_reduced_ok [of v mf] assms(3,4) by simp
  show ?thesis
    unfolding utility_car_f64_shift
    using shift_f64_step [OF assms(1) car_key_not_carpool [OF assms(2)],
        of "\<lambda>v. fmul (fmul v (fl CAR_SUBSTITUTION_RATE)) (fl mf)" "\<lambda>x. x", OF red]
    by simp
qed

text \<open>A loop whose every step multiplies the sum by at most \<open>c\<close>.\<close>

lemma fold_sum_bound:
  assumes step: "\<And>x e. x \<in> set xs \<Longrightarrow> \<forall>v \<in> set (dict_values e). 0 \<le> v \<Longrightarrow>
      (\<forall>v \<in> set (dict_values (f x e)). 0 \<le> v)
      \<and> sum_list (dict_values (f x e)) \<le> sum_list (dict_values e) * c"
    and nn: "\<forall>v \<in> set (dict_values e). 0 \<le> (v::real)" and c: "0 \<le> c"
  shows "(\<forall>v \<in> set (dict_values (fold f xs e)). 0 \<le> v)
    \<and> sum_list (dict_values (fold f xs e)) \<le> sum_list (dict_values e) * c ^ length xs"
  using step nn
proof (induction xs arbitrary: e)
  case Nil
  then show ?case by simp
next
  case (Cons x xs)
  have s: "(\<forall>v \<in> set (dict_values (f x e)). 0 \<le> v)
      \<and> sum_list (dict_values (f x e)) \<le> sum_list (dict_values e) * c"
    by (rule Cons.prems(1)) (simp_all add: Cons.prems(2))
  have ih: "(\<forall>v \<in> set (dict_values (fold f xs (f x e))). 0 \<le> v)
      \<and> sum_list (dict_values (fold f xs (f x e)))
          \<le> sum_list (dict_values (f x e)) * c ^ length xs"
  proof (rule Cons.IH)
    fix y and e' :: emissions
    assume "y \<in> set xs" and e': "\<forall>v \<in> set (dict_values e'). 0 \<le> v"
    then have "y \<in> set (x # xs)" by simp
    then show "(\<forall>v \<in> set (dict_values (f y e')). 0 \<le> v)
        \<and> sum_list (dict_values (f y e')) \<le> sum_list (dict_values e') * c"
      using e' by (rule Cons.prems(1))
  next
    show "\<forall>v \<in> set (dict_values (f x e)). 0 \<le> v" using s by simp
  qed
  have "sum_list (dict_values (f x e)) * c ^ length xs
      \<le> sum_list (dict_values e) * c * c ^ length xs"
    using s c by (intro mult_right_mono) simp_all
  then show ?case using ih by (simp add: mult.assoc)
qed

lemma copy_emissions_f64_id:
  "\<forall>v \<in> set (dict_values b). fl v = v \<Longrightarrow> copy_emissions_f64 b = b"
  by (induction b) (auto simp: copy_emissions_f64_def dict_values_def)

lemma utility_parameters_range:
  "1 / 10 \<le> fst (utility_parameters u)" "fst (utility_parameters u) \<le> 2 / 5"
  "0 \<le> snd (utility_parameters u)" "snd (utility_parameters u) \<le> 13 / 10"
  by (simp_all add: utility_parameters_def)

lemma modal_f64_bound:
  assumes "\<forall>v \<in> set (dict_values b). 0 \<le> v \<and> fl v = v"
  shows "sum_list (dict_values (scenario_modal_substitution_f64 b))
      \<le> sum_list (dict_values b) * (1 + unit_roundoff) ^ 5"
proof -
  let ?K = "1 + unit_roundoff"
  have K: "0 \<le> ?K" using unit_roundoff_pos by simp
  have nn: "\<forall>v \<in> set (dict_values b). 0 \<le> v" and copy: "copy_emissions_f64 b = b"
    using assms by (simp_all add: copy_emissions_f64_id)
  let ?e1 = "fold modal_flight_f64 MAX_FLIGHT_SUBSTITUTION b"
  have f: "(\<forall>v \<in> set (dict_values ?e1). 0 \<le> v)
      \<and> sum_list (dict_values ?e1) \<le> sum_list (dict_values b) * ?K ^ length MAX_FLIGHT_SUBSTITUTION"
    by (rule fold_sum_bound) (simp_all add: modal_flight_f64_step nn K)
  have "(\<forall>v \<in> set (dict_values (fold modal_car_f64 car_keys ?e1)). 0 \<le> v)
      \<and> sum_list (dict_values (fold modal_car_f64 car_keys ?e1))
          \<le> sum_list (dict_values ?e1) * ?K ^ length car_keys"
    by (rule fold_sum_bound) (simp_all add: modal_car_f64_step f K)
  then have c: "sum_list (dict_values (fold modal_car_f64 car_keys ?e1))
      \<le> sum_list (dict_values ?e1) * ?K ^ length car_keys"
    by simp
  have "sum_list (dict_values ?e1) * ?K ^ length car_keys
      \<le> sum_list (dict_values b) * ?K ^ length MAX_FLIGHT_SUBSTITUTION * ?K ^ length car_keys"
    using f K by (intro mult_right_mono) simp_all
  also have "\<dots> = sum_list (dict_values b) * ?K ^ 5"
    by (simp add: MAX_FLIGHT_SUBSTITUTION_def car_keys_def eval_nat_numeral)
  finally show ?thesis
    using c by (simp add: scenario_modal_substitution_f64_def copy)
qed

lemma digital_f64_bound:
  assumes "\<forall>v \<in> set (dict_values b). 0 \<le> v \<and> fl v = v"
  shows "sum_list (dict_values (scenario_digital_sobriety_f64 b)) \<le> sum_list (dict_values b)"
proof -
  have nn: "\<forall>v \<in> set (dict_values b). 0 \<le> v" and copy: "copy_emissions_f64 b = b"
    using assms by (simp_all add: copy_emissions_f64_id)
  have "(\<forall>v \<in> set (dict_values
          (fold (digital_post_f64 MAX_DIGITAL_REDUCTION) DIGITAL_SOBRIETY_POSTS b)). 0 \<le> v)
      \<and> sum_list (dict_values (fold (digital_post_f64 MAX_DIGITAL_REDUCTION) DIGITAL_SOBRIETY_POSTS b))
          \<le> sum_list (dict_values b) * 1 ^ length DIGITAL_SOBRIETY_POSTS"
  proof (rule fold_sum_bound)
    fix x and e :: emissions
    assume "\<forall>v \<in> set (dict_values e). 0 \<le> v"
    then show "(\<forall>v \<in> set (dict_values (digital_post_f64 MAX_DIGITAL_REDUCTION x e)). 0 \<le> v)
        \<and> sum_list (dict_values (digital_post_f64 MAX_DIGITAL_REDUCTION x e))
            \<le> sum_list (dict_values e) * 1"
      by (rule digital_post_f64_both) (simp_all add: MAX_DIGITAL_REDUCTION_def)
  qed (simp_all add: nn)
  then show ?thesis
    by (simp add: scenario_digital_sobriety_f64_def copy)
qed

lemma utility_f64_bound:
  assumes "\<forall>v \<in> set (dict_values b). 0 \<le> v \<and> fl v = v"
  shows "sum_list (dict_values (scenario_utility_aware_f64 b u))
      \<le> sum_list (dict_values b) * (1 + unit_roundoff) ^ 5"
proof -
  let ?K = "1 + unit_roundoff"
  let ?dr = "fst (utility_parameters u)" and ?mf = "snd (utility_parameters u)"
  note p = utility_parameters_range [of u]
  have K: "0 \<le> ?K" using unit_roundoff_pos by simp
  have nn: "\<forall>v \<in> set (dict_values b). 0 \<le> v" and copy: "copy_emissions_f64 b = b"
    using assms by (simp_all add: copy_emissions_f64_id)
  let ?e0 = "fold (digital_post_f64 ?dr) DIGITAL_SOBRIETY_POSTS b"
  have d: "(\<forall>v \<in> set (dict_values ?e0). 0 \<le> v)
      \<and> sum_list (dict_values ?e0) \<le> sum_list (dict_values b) * 1 ^ length DIGITAL_SOBRIETY_POSTS"
  proof (rule fold_sum_bound)
    fix x and e :: emissions
    assume "\<forall>v \<in> set (dict_values e). 0 \<le> v"
    then show "(\<forall>v \<in> set (dict_values (digital_post_f64 ?dr x e)). 0 \<le> v)
        \<and> sum_list (dict_values (digital_post_f64 ?dr x e)) \<le> sum_list (dict_values e) * 1"
      using p(1,2) by (rule digital_post_f64_both)
  qed (simp_all add: nn)
  let ?e1 = "fold (utility_flight_f64 ?mf) MAX_FLIGHT_SUBSTITUTION ?e0"
  have f: "(\<forall>v \<in> set (dict_values ?e1). 0 \<le> v)
      \<and> sum_list (dict_values ?e1) \<le> sum_list (dict_values ?e0) * ?K ^ length MAX_FLIGHT_SUBSTITUTION"
  proof (rule fold_sum_bound)
    fix x and e :: emissions
    assume "x \<in> set MAX_FLIGHT_SUBSTITUTION" "\<forall>v \<in> set (dict_values e). 0 \<le> v"
    then show "(\<forall>v \<in> set (dict_values (utility_flight_f64 ?mf x e)). 0 \<le> v)
        \<and> sum_list (dict_values (utility_flight_f64 ?mf x e)) \<le> sum_list (dict_values e) * ?K"
      using p(3) by (intro utility_flight_f64_step)
  next
    show "\<forall>v \<in> set (dict_values ?e0). 0 \<le> v" using d by (rule conjunct1)
  qed (rule K)
  have "(\<forall>v \<in> set (dict_values (fold (utility_car_f64 ?mf) car_keys ?e1)). 0 \<le> v)
      \<and> sum_list (dict_values (fold (utility_car_f64 ?mf) car_keys ?e1))
          \<le> sum_list (dict_values ?e1) * ?K ^ length car_keys"
  proof (rule fold_sum_bound)
    fix x and e :: emissions
    assume "x \<in> set car_keys" "\<forall>v \<in> set (dict_values e). 0 \<le> v"
    then show "(\<forall>v \<in> set (dict_values (utility_car_f64 ?mf x e)). 0 \<le> v)
        \<and> sum_list (dict_values (utility_car_f64 ?mf x e)) \<le> sum_list (dict_values e) * ?K"
      using p(3,4) by (intro utility_car_f64_step)
  next
    show "\<forall>v \<in> set (dict_values ?e1). 0 \<le> v" using f by (rule conjunct1)
  qed (rule K)
  then have c: "sum_list (dict_values (fold (utility_car_f64 ?mf) car_keys ?e1))
      \<le> sum_list (dict_values ?e1) * ?K ^ length car_keys"
    by (rule conjunct2)
  have len: "length MAX_FLIGHT_SUBSTITUTION = 3" "length car_keys = 2"
    "length DIGITAL_SOBRIETY_POSTS = 4"
    by (simp_all add: MAX_FLIGHT_SUBSTITUTION_def car_keys_def DIGITAL_SOBRIETY_POSTS_def)
  have d': "sum_list (dict_values ?e0) \<le> sum_list (dict_values b)"
    using d by simp
  have f': "sum_list (dict_values ?e1) \<le> sum_list (dict_values ?e0) * ?K ^ 3"
    using f len by simp
  have c': "sum_list (dict_values (fold (utility_car_f64 ?mf) car_keys ?e1))
      \<le> sum_list (dict_values ?e1) * ?K ^ 2"
    using c len by simp
  have "sum_list (dict_values ?e1) * ?K ^ 2 \<le> sum_list (dict_values ?e0) * ?K ^ 3 * ?K ^ 2"
    using f' K by (intro mult_right_mono) simp_all
  also have "\<dots> = sum_list (dict_values ?e0) * ?K ^ 5"
    by (simp add: mult.assoc flip: power_add)
  also have "\<dots> \<le> sum_list (dict_values b) * ?K ^ 5"
    using d' K by (intro mult_right_mono) simp_all
  finally have "sum_list (dict_values (fold (utility_car_f64 ?mf) car_keys ?e1))
      \<le> sum_list (dict_values b) * ?K ^ 5"
    using c' by simp
  moreover have "scenario_utility_aware_f64 b u = fold (utility_car_f64 ?mf) car_keys ?e1"
    by (simp add: scenario_utility_aware_f64_def copy split: prod.splits)
  ultimately show ?thesis by simp
qed

subsection \<open>Conservation on doubles\<close>

lemma double_161: "0 \<le> fl 1.61" "fl (fl 1.61) = fl 1.61"
  by code_simp+

lemma double_small: "fl 1000 = 1000" "fl 100 = 100"
  by code_simp+

text \<open>
  C7. Conservation bound of the modal substitution, on the doubles of the code: for a
  baseline of non-negative doubles, the sum of the values the scenario stores is at most
  the sum of the baseline times \<open>(1 + 2 ^ (-53)) ^ 5\<close>. Each flight shift gives back a
  tenth of what it took and each car shift all of it, but every value stored is rounded,
  so the bound holds up to that rounding and not exactly.
\<close>

theorem modal_conservation_doubles:
  assumes "\<forall>v \<in> set (dict_values b). 0 \<le> v \<and> fl v = v"
  shows "sum_list (dict_values (scenario_modal_substitution_f64 b))
      \<le> sum_list (dict_values b) * (1 + 1 / 2 ^ 53) ^ 5"
  using modal_f64_bound [OF assms] by (simp add: unit_roundoff_def)

theorem modal_conservation_doubles_witness:
  "0 \<le> (1000::real) \<and> fl 1000 = 1000 \<and> 0 \<le> fl 1.61 \<and> fl (fl 1.61) = fl 1.61
   \<and> sum_list (dict_values (scenario_modal_substitution_f64
          [(''flight_long'', 1000), (''car_essence'', fl 1.61)]))
      \<le> sum_list (dict_values [(''flight_long'', 1000), (''car_essence'', fl 1.61)])
          * (1 + 1 / 2 ^ 53) ^ 5"
proof -
  have h: "\<forall>v \<in> set (dict_values [(''flight_long'', 1000), (''car_essence'', fl 1.61)]).
      0 \<le> v \<and> fl v = v"
    using double_161 double_small by (simp add: dict_values_def)
  show ?thesis
    using modal_conservation_doubles [OF h] double_161 double_small by simp
qed

text \<open>
  The bound does not hold exactly. Seven kilometres by petrol car give the baseline
  \<open>{car_essence: 1.61}\<close>; the scenario stores 1.1270000000000002 and 0.483, whose sum is
  above 1.61, taken exactly or as Python sums it.
\<close>

theorem modal_conservation_counterexample:
  "0 \<le> fl 1.61 \<and> fl (fl 1.61) = fl 1.61
   \<and> scenario_modal_substitution_f64 [(''car_essence'', fl 1.61)] =
       [(''car_essence'', 2537778390023275 / 2 ^ 51), (''carpool'', 4350477240039899 / 2 ^ 53)]
   \<and> \<not> sum_list (dict_values (scenario_modal_substitution_f64 [(''car_essence'', fl 1.61)]))
         \<le> sum_list (dict_values [(''car_essence'', fl 1.61)])
   \<and> \<not> py_sum_f64 (dict_values (scenario_modal_substitution_f64 [(''car_essence'', fl 1.61)]))
         \<le> py_sum_f64 (dict_values [(''car_essence'', fl 1.61)])"
  by code_simp

text \<open>
  C10. Conservation bound of the other two scenarios, on the doubles of the code: for a
  baseline of non-negative doubles, the sum of the values the digital sobriety scenario
  stores is at most the sum of the baseline, and the sum of the values the utility-aware
  scenario stores is at most the sum of the baseline times \<open>(1 + 2 ^ (-53)) ^ 5\<close>, for
  every utility score. The digital cuts only take; the car shifts give back all they
  take, up to the rounding of the values stored.
\<close>

theorem other_scenarios_conservation_doubles:
  assumes "\<forall>v \<in> set (dict_values b). 0 \<le> v \<and> fl v = v"
  shows "sum_list (dict_values (scenario_digital_sobriety_f64 b)) \<le> sum_list (dict_values b)
    \<and> sum_list (dict_values (scenario_utility_aware_f64 b u))
        \<le> sum_list (dict_values b) * (1 + 1 / 2 ^ 53) ^ 5"
  using digital_f64_bound [OF assms] utility_f64_bound [OF assms, of u]
  by (simp add: unit_roundoff_def)

theorem other_scenarios_conservation_doubles_witness:
  "0 \<le> (100::real) \<and> fl 100 = 100 \<and> 0 \<le> fl 1.61 \<and> fl (fl 1.61) = fl 1.61
   \<and> sum_list (dict_values (scenario_digital_sobriety_f64
          [(''cloud'', 100), (''car_essence'', fl 1.61)]))
      \<le> sum_list (dict_values [(''cloud'', 100), (''car_essence'', fl 1.61)])
   \<and> sum_list (dict_values (scenario_utility_aware_f64
          [(''cloud'', 100), (''car_essence'', fl 1.61)] 6))
      \<le> sum_list (dict_values [(''cloud'', 100), (''car_essence'', fl 1.61)])
          * (1 + 1 / 2 ^ 53) ^ 5"
proof -
  have h: "\<forall>v \<in> set (dict_values [(''cloud'', 100), (''car_essence'', fl 1.61)]).
      0 \<le> v \<and> fl v = v"
    using double_161 double_small by (simp add: dict_values_def)
  show ?thesis
    using other_scenarios_conservation_doubles [OF h, of 6] double_161 double_small by simp
qed

text \<open>
  The utility-aware bound does not hold exactly, at any tier: the baselines
  \<open>{car_essence: 1.61}\<close> at score 6, \<open>{car_essence: 27.37}\<close> at score 3 and
  \<open>{car_essence: 2.53}\<close> at score 9 each give a scenario whose values sum above the
  baseline.
\<close>

theorem utility_conservation_counterexample:
  "0 \<le> fl 1.61 \<and> fl (fl 1.61) = fl 1.61
   \<and> scenario_utility_aware_f64 [(''car_essence'', fl 1.61)] 6 =
       [(''car_essence'', 2537778390023275 / 2 ^ 51), (''carpool'', 4350477240039899 / 2 ^ 53)]
   \<and> \<not> sum_list (dict_values (scenario_utility_aware_f64 [(''car_essence'', fl 1.61)] 6))
         \<le> sum_list (dict_values [(''car_essence'', fl 1.61)])
   \<and> \<not> py_sum_f64 (dict_values (scenario_utility_aware_f64 [(''car_essence'', fl 1.61)] 6))
         \<le> py_sum_f64 (dict_values [(''car_essence'', fl 1.61)])
   \<and> 0 \<le> fl 27.37 \<and> fl (fl 27.37) = fl 27.37
   \<and> \<not> sum_list (dict_values (scenario_utility_aware_f64 [(''car_essence'', fl 27.37)] 3))
         \<le> sum_list (dict_values [(''car_essence'', fl 27.37)])
   \<and> 0 \<le> fl 2.53 \<and> fl (fl 2.53) = fl 2.53
   \<and> \<not> sum_list (dict_values (scenario_utility_aware_f64 [(''car_essence'', fl 2.53)] 9))
         \<le> sum_list (dict_values [(''car_essence'', fl 2.53)])"
  by code_simp

subsection \<open>The calculator on doubles\<close>

text \<open>
  On doubles the calculator also keeps a key whose rounded amount is 0. A product that is
  a decimal tie in exact arithmetic is not one on doubles: five LLM requests give 0.01 and
  three kilometres of short flight 0.77. Seven kilometres by petrol car give the baseline
  \<open>{car_essence: 1.61}\<close>.
\<close>

lemma calculate_emissions_f64_zero_amount:
  "calculate_emissions_f64 [(''llm_usage'', ''1'')] = ([(''llm_usage'', 0)], 0)"
  by code_simp

lemma calculate_emissions_f64_ties:
  "calculate_emissions_f64 [(''llm_usage'', ''5'')] = ([(''llm_usage'', fl 0.01)], fl 0.01)"
  "calculate_emissions_f64 [(''flight_short'', ''3'')] = ([(''flight_short'', fl 0.77)], fl 0.77)"
  by code_simp+

lemma calculate_emissions_f64_petrol:
  "calculate_emissions_f64 [(''car_essence'', ''7'')] = ([(''car_essence'', fl 1.61)], fl 1.61)"
  by code_simp

end
